theory Spec2Isabelle
  imports Complex_Main
begin

section \<open>Numbers and constants\<close>

text \<open>
  The component file exists in two revisions. They share the parser, the geometry cache
  and the commit code; they differ in which scene axis is vertical (the first keeps the
  modeller's Z-up convention, the second converts to Y-up) and in how highlight state is
  kept. Where the two differ the revision is a parameter of the embedded function.

  JavaScript numbers are IEEE doubles; the model holds the real number a double denotes.
  The snap functions and the angle conversions round every arithmetic operation to double
  precision, as the code does, because what they return depends on the last bit. The
  description parser and the colour conversions are embedded with exact arithmetic on
  the values of their literals.
\<close>

datatype layout = Z_up | Y_up

definition STUD_PITCH :: real where
  "STUD_PITCH = 8"

definition BRICK_H :: real where
  "BRICK_H = 96 / 10"

text \<open>\<^verbatim>\<open>Math.round\<close>: the nearest integer, a tie going towards plus infinity.\<close>

definition Math_round :: "real \<Rightarrow> real" where
  "Math_round v = of_int \<lfloor>v + 1 / 2\<rfloor>"

definition clamp01 :: "real \<Rightarrow> real" where
  "clamp01 v = max 0 (min 1 v)"

subsection \<open>Double precision\<close>

text \<open>
  \<open>binade x\<close> is the exponent \<open>e\<close> of a positive number, \<open>2 ^ e \<le> x < 2 ^ (e + 1)\<close>,
  found by halving or doubling. \<open>double x\<close> is the number with a significand of 53 bits
  nearest to \<open>x\<close>, a tie going to the even significand: the rounding of every
  arithmetic operation on doubles. The exponent is not bounded, so \<open>double\<close> agrees
  with the machine operation wherever that neither overflows nor returns a subnormal
  number; the two zeros of the machine format are one number here.
\<close>

function binade :: "real \<Rightarrow> int" where
  "binade x =
     (if x \<le> 0 then 0
      else if 2 \<le> x then binade (x / 2) + 1
      else if x < 1 then binade (2 * x) - 1
      else 0)"
  by pat_completeness auto
termination
proof (relation "measure (\<lambda>x. nat \<lfloor>x\<rfloor> + 2 * nat \<lceil>1 / x\<rceil>)")
  show "wf (measure (\<lambda>x. nat \<lfloor>x\<rfloor> + 2 * nat \<lceil>1 / x\<rceil>))" by simp
next
  fix x :: real
  assume a: "\<not> x \<le> 0" "2 \<le> x"
  have "\<lfloor>x / 2\<rfloor> < \<lfloor>x\<rfloor>" using a by linarith
  moreover have "\<lceil>1 / (x / 2)\<rceil> = 1" using a by (simp add: ceiling_eq_iff)
  moreover have "\<lceil>1 / x\<rceil> = 1" using a by (simp add: ceiling_eq_iff)
  moreover have "0 \<le> \<lfloor>x / 2\<rfloor>" using a by simp
  ultimately show "(x / 2, x) \<in> measure (\<lambda>x. nat \<lfloor>x\<rfloor> + 2 * nat \<lceil>1 / x\<rceil>)"
    using a by simp
next
  fix x :: real
  assume a: "\<not> x \<le> 0" "\<not> 2 \<le> x" "x < 1"
  have x: "0 < x" using a by simp
  have "1 < 1 / x" using a x by simp
  then have c2: "2 \<le> \<lceil>1 / x\<rceil>" by linarith
  have "1 / (2 * x) = (1 / x) / 2" by simp
  also have "\<dots> \<le> of_int \<lceil>1 / x\<rceil> / 2" by (simp add: divide_right_mono)
  also have "\<dots> \<le> of_int (\<lceil>1 / x\<rceil> - 1)" using c2 by simp
  finally have "1 / (2 * x) \<le> of_int (\<lceil>1 / x\<rceil> - 1)" .
  then have "\<lceil>1 / (2 * x)\<rceil> \<le> \<lceil>1 / x\<rceil> - 1" by (rule ceiling_le)
  moreover have "\<lfloor>2 * x\<rfloor> \<le> 1" using a by linarith
  moreover have "0 \<le> \<lfloor>x\<rfloor>" using x by simp
  ultimately show "(2 * x, x) \<in> measure (\<lambda>x. nat \<lfloor>x\<rfloor> + 2 * nat \<lceil>1 / x\<rceil>)"
    using c2 unfolding in_measure by arith
qed

declare binade.simps [simp del]

definition round_ties_even :: "real \<Rightarrow> int" where
  "round_ties_even y =
     (let n = \<lfloor>y\<rfloor>; d = y - of_int n
      in if d < 1 / 2 then n
         else if 1 / 2 < d then n + 1
         else if even n then n else n + 1)"

definition double :: "real \<Rightarrow> real" where
  "double x =
     (if x = 0 then 0
      else let ulp = 2 powi (binade \<bar>x\<bar> - 52)
           in of_int (round_ties_even (x / ulp)) * ulp)"

text \<open>
  \<^verbatim>\<open>Math.PI\<close> is the double nearest to the circle constant. The two angle conversions
  of the rendering library multiply by a factor computed once in double precision.
\<close>

definition Math_PI :: real where
  "Math_PI = 884279719003555 / 281474976710656"

definition DEG2RAD :: real where
  "DEG2RAD = double (Math_PI / 180)"

definition RAD2DEG :: real where
  "RAD2DEG = double (180 / Math_PI)"

definition degToRad :: "real \<Rightarrow> real" where
  "degToRad d = double (d * DEG2RAD)"

definition radToDeg :: "real \<Rightarrow> real" where
  "radToDeg r = double (r * RAD2DEG)"

text \<open>
  The level height \<^verbatim>\<open>BRICK_H / 3\<close>, which the second revision names \<^verbatim>\<open>PLATE_H\<close>:
  the literal \<^verbatim>\<open>9.6\<close> is the double nearest to 96/10 and the division rounds again.
\<close>

definition PLATE_H :: real where
  "PLATE_H = double (double BRICK_H / 3)"

lemma binade_bounds: "0 < x \<Longrightarrow> 2 powi binade x \<le> x \<and> x < 2 powi (binade x + 1)"
proof (induction x rule: binade.induct)
  case (1 x)
  show ?case
  proof (cases "2 \<le> x")
    case True
    then have b: "binade x = binade (x / 2) + 1" using 1 by (subst binade.simps) simp
    have "2 powi binade (x / 2) \<le> x / 2 \<and> x / 2 < 2 powi (binade (x / 2) + 1)"
      using 1 True by simp
    then show ?thesis unfolding b by (simp add: power_int_add)
  next
    case False
    show ?thesis
    proof (cases "x < 1")
      case True
      then have b: "binade x = binade (2 * x) - 1" using 1 False by (subst binade.simps) simp
      have "2 powi binade (2 * x) \<le> 2 * x \<and> 2 * x < 2 powi (binade (2 * x) + 1)"
        using 1 True False by simp
      then show ?thesis unfolding b by (simp add: power_int_add power_int_diff)
    next
      case nl: False
      then have "binade x = 0" using 1 False by (subst binade.simps) simp
      then show ?thesis using nl False by simp
    qed
  qed
qed

lemma binade_unique:
  assumes "0 < x" and lo: "2 powi e \<le> x" and hi: "x < 2 powi (e + 1)"
  shows "binade x = e"
proof -
  have mono: "(2::real) powi a \<le> 2 powi b" if "a \<le> b" for a b :: int
    using that by (intro power_int_increasing) simp_all
  have b: "2 powi binade x \<le> x" "x < 2 powi (binade x + 1)"
    using binade_bounds [OF assms(1)] by simp_all
  have "\<not> e + 1 \<le> binade x"
    using mono [of "e + 1" "binade x"] b(1) hi by linarith
  moreover have "\<not> binade x + 1 \<le> e"
    using mono [of "binade x + 1" e] b(2) lo by linarith
  ultimately show ?thesis by linarith
qed

lemma round_ties_even_error: "\<bar>of_int (round_ties_even y) - y\<bar> \<le> 1 / 2"
  unfolding round_ties_even_def Let_def by (auto; linarith)

text \<open>The relative error of one rounding is at most \<open>2 ^ - 53\<close>.\<close>

lemma double_error: "\<bar>double x - x\<bar> \<le> \<bar>x\<bar> / 2 ^ 53"
proof (cases "x = 0")
  case True
  then show ?thesis by (simp add: double_def)
next
  case False
  define q :: real where "q = 2 powi (binade \<bar>x\<bar> - 52)"
  have q: "0 < q" unfolding q_def by simp
  have "2 powi binade \<bar>x\<bar> \<le> \<bar>x\<bar>" using binade_bounds [of "\<bar>x\<bar>"] False by simp
  then have qx: "q * 2 ^ 52 \<le> \<bar>x\<bar>" unfolding q_def by (simp add: power_int_diff)
  have "double x - x = (of_int (round_ties_even (x / q)) - x / q) * q"
    using False q unfolding double_def q_def Let_def by (simp add: algebra_simps)
  then have "\<bar>double x - x\<bar> = \<bar>of_int (round_ties_even (x / q)) - x / q\<bar> * q"
    using q by (simp add: abs_mult)
  also have "\<dots> \<le> 1 / 2 * q"
    using round_ties_even_error [of "x / q"] q by (intro mult_right_mono) simp_all
  also have "\<dots> \<le> \<bar>x\<bar> / 2 ^ 53" using qx by simp
  finally show ?thesis .
qed

lemma double_zero [simp]: "double 0 = 0"
  by (simp add: double_def)

text \<open>Rounding a number whose exponent is known.\<close>

lemma double_at:
  assumes "2 powi e \<le> \<bar>x\<bar>" and "\<bar>x\<bar> < 2 powi (e + 1)"
  shows "double x = of_int (round_ties_even (x / 2 powi (e - 52))) * 2 powi (e - 52)"
proof -
  have "(0::real) < 2 powi e" by simp
  then have pos: "0 < \<bar>x\<bar>" using assms(1) by linarith
  then have "binade \<bar>x\<bar> = e" using assms by (intro binade_unique)
  then show ?thesis using pos by (simp add: double_def Let_def)
qed

lemma BRICK_H_double: "double BRICK_H = 5404319552844595 / 562949953421312"
  unfolding BRICK_H_def
  by (subst double_at [where e = 3]) (simp_all add: round_ties_even_def Let_def)

text \<open>The level height is \<^verbatim>\<open>3.1999999999999997\<close>, below 16/5.\<close>

lemma PLATE_H_value: "PLATE_H = 7205759403792793 / 2251799813685248"
  unfolding PLATE_H_def BRICK_H_double
  by (subst double_at [where e = 1]) (simp_all add: round_ties_even_def Let_def)

lemma DEG2RAD_value: "DEG2RAD = 5030569068109113 / 288230376151711744"
  unfolding DEG2RAD_def Math_PI_def
  by (subst double_at [where e = "- 6"]) (simp_all add: round_ties_even_def Let_def)

lemma quarter_turn_value: "degToRad 90 = 884279719003555 / 562949953421312"
  unfolding degToRad_def DEG2RAD_value
  by (subst double_at [where e = 0]) (simp_all add: round_ties_even_def Let_def)

lemma degToRad_zero [simp]: "degToRad 0 = 0"
  by (simp add: degToRad_def)

lemma radToDeg_zero [simp]: "radToDeg 0 = 0"
  by (simp add: radToDeg_def)

section \<open>Parts and scene objects\<close>

record brick =
  brick_id :: string
  kind :: string
  xMm :: real
  yMm :: real
  zMm :: real
  rotX :: real
  rotY :: real
  rotZ :: real
  color :: "real \<times> real \<times> real"

datatype emissive = NoEmissive | SelectEmissive | AutoEmissive

text \<open>
  A scene mesh: the fields of the rendering library's object that the component reads
  and writes. Its rotation is an Euler triple in radians. The second revision marks a
  mesh through the emissive colour of its material; the first revision sets the colour
  of the material to the Part's colour or to its blend with the highlight colour, which
  \<open>material_blend\<close> records.
\<close>

record object3D =
  position_x :: real
  position_y :: real
  position_z :: real
  rotation_x :: real
  rotation_y :: real
  rotation_z :: real
  visible :: bool
  material_emissive :: emissive
  material_blend :: bool

section \<open>Snapping\<close>

definition snapValue :: "real \<Rightarrow> real \<Rightarrow> real" where
  "snapValue v stepV = double (Math_round (double (v / stepV)) * stepV)"

definition snapEulerToDegStep :: "object3D \<Rightarrow> real \<Rightarrow> object3D" where
  "snapEulerToDegStep e stepDeg =
     (let stepRad = degToRad stepDeg in
      e\<lparr>rotation_x := double (Math_round (double (rotation_x e / stepRad)) * stepRad),
        rotation_y := double (Math_round (double (rotation_y e / stepRad)) * stepRad),
        rotation_z := double (Math_round (double (rotation_z e / stepRad)) * stepRad)\<rparr>)"

text \<open>
  The snap switches of the component and the state of the Control key, as the snap
  function reads them.
\<close>

record snap_options =
  snapEnabled :: bool
  snapStud :: bool
  snapLevels :: bool
  ctrl :: bool

definition applySnapToMesh :: "layout \<Rightarrow> snap_options \<Rightarrow> object3D \<Rightarrow> object3D" where
  "applySnapToMesh lay opts mesh =
     (if \<not> snapEnabled opts then mesh
      else if ctrl opts then mesh
      else
        let stepH = (if snapStud opts then STUD_PITCH else 1);
            stepV = (if snapLevels opts then PLATE_H else 1);
            snapped =
              (case lay of
                 Z_up \<Rightarrow>
                   mesh\<lparr>position_x := snapValue (position_x mesh) stepH,
                        position_y := snapValue (position_y mesh) stepH,
                        position_z := snapValue (position_z mesh) stepV\<rparr>
               | Y_up \<Rightarrow>
                   mesh\<lparr>position_x := snapValue (position_x mesh) stepH,
                        position_z := snapValue (position_z mesh) stepH,
                        position_y := snapValue (position_y mesh) stepV\<rparr>)
        in snapEulerToDegStep snapped 90)"

definition stepH_of :: "snap_options \<Rightarrow> real" where
  "stepH_of opts = (if snapStud opts then STUD_PITCH else 1)"

definition stepV_of :: "snap_options \<Rightarrow> real" where
  "stepV_of opts = (if snapLevels opts then PLATE_H else 1)"

text \<open>
  The transform whose coordinates are whole numbers of steps as the machine computes
  them: the double-precision product of the count with the active pitch on the two
  horizontal axes, with the active level height on the vertical axis, and with the
  quarter turn on every rotation axis. These are the values the snap function returns.
\<close>

definition on_grid ::
  "layout \<Rightarrow> snap_options \<Rightarrow> int \<Rightarrow> int \<Rightarrow> int \<Rightarrow> int \<Rightarrow> int \<Rightarrow> int \<Rightarrow> object3D \<Rightarrow> object3D" where
  "on_grid lay opts ka kb kv jx jy jz mesh =
     (case lay of
        Z_up \<Rightarrow>
          mesh\<lparr>position_x := double (of_int ka * stepH_of opts),
               position_y := double (of_int kb * stepH_of opts),
               position_z := double (of_int kv * stepV_of opts),
               rotation_x := double (of_int jx * degToRad 90),
               rotation_y := double (of_int jy * degToRad 90),
               rotation_z := double (of_int jz * degToRad 90)\<rparr>
      | Y_up \<Rightarrow>
          mesh\<lparr>position_x := double (of_int ka * stepH_of opts),
               position_y := double (of_int kv * stepV_of opts),
               position_z := double (of_int kb * stepH_of opts),
               rotation_x := double (of_int jx * degToRad 90),
               rotation_y := double (of_int jy * degToRad 90),
               rotation_z := double (of_int jz * degToRad 90)\<rparr>)"

definition in_snap_range :: "object3D \<Rightarrow> bool" where
  "in_snap_range mesh =
     (\<bar>position_x mesh\<bar> \<le> 2 ^ 49 \<and> \<bar>position_y mesh\<bar> \<le> 2 ^ 49 \<and> \<bar>position_z mesh\<bar> \<le> 2 ^ 49 \<and>
      \<bar>rotation_x mesh\<bar> \<le> 2 ^ 49 \<and> \<bar>rotation_y mesh\<bar> \<le> 2 ^ 49 \<and> \<bar>rotation_z mesh\<bar> \<le> 2 ^ 49)"

definition opts_all_on :: snap_options where
  "opts_all_on = \<lparr>snapEnabled = True, snapStud = True, snapLevels = True, ctrl = False\<rparr>"

definition sample_mesh :: object3D where
  "sample_mesh =
     \<lparr>position_x = 13, position_y = 47 / 5, position_z = - 3,
      rotation_x = 0, rotation_y = 8 / 5, rotation_z = - 3,
      visible = True, material_emissive = NoEmissive, material_blend = False\<rparr>"

text \<open>
  A mesh at height 48, where the parser puts a Part of level 5 (fifteen level heights of
  16/5), and a mesh far from the origin.
\<close>

definition level_five_mesh :: object3D where
  "level_five_mesh =
     \<lparr>position_x = 0, position_y = 48, position_z = 0,
      rotation_x = 0, rotation_y = 0, rotation_z = 0,
      visible = True, material_emissive = NoEmissive, material_blend = False\<rparr>"

definition far_mesh :: object3D where
  "far_mesh =
     \<lparr>position_x = 0, position_y = 9977102046926286, position_z = 0,
      rotation_x = 0, rotation_y = 0, rotation_z = 0,
      visible = True, material_emissive = NoEmissive, material_blend = False\<rparr>"

lemma floor_half: "\<lfloor>real_of_int k + 1 / 2\<rfloor> = k"
  by linarith

lemma Math_round_of_int: "Math_round (of_int k) = of_int k"
  unfolding Math_round_def by (simp add: floor_half)

text \<open>
  Dividing the rounded product of a count and the step by the step and rounding again
  stays within a half of the count, as long as the count is below \<open>2 ^ 50\<close>.
\<close>

lemma count_recovered:
  assumes s: "0 < s" and k: "\<bar>k\<bar> \<le> 2 ^ 50"
  shows "Math_round (double (double (of_int k * s) / s)) = of_int k"
proof -
  define r where "r = double (of_int k * s)"
  define z where "z = double (r / s)"
  have kr: "\<bar>real_of_int k\<bar> \<le> 2 ^ 50"
    using k by (metis of_int_abs of_int_le_iff of_int_numeral of_int_power)
  have "\<bar>r - of_int k * s\<bar> \<le> \<bar>of_int k * s\<bar> / 2 ^ 53"
    unfolding r_def by (rule double_error)
  then have "\<bar>r - of_int k * s\<bar> \<le> (\<bar>of_int k\<bar> / 2 ^ 53) * s"
    using s by (simp add: abs_mult)
  moreover have "r / s - of_int k = (r - of_int k * s) / s"
    using s by (simp add: field_simps)
  then have "\<bar>r / s - of_int k\<bar> = \<bar>r - of_int k * s\<bar> / \<bar>s\<bar>"
    by (simp only: abs_divide)
  then have "\<bar>r / s - of_int k\<bar> = \<bar>r - of_int k * s\<bar> / s"
    using s by simp
  ultimately have e1: "\<bar>r / s - of_int k\<bar> \<le> \<bar>of_int k\<bar> / 2 ^ 53"
    using s by (simp add: field_simps)
  have "\<bar>z - r / s\<bar> \<le> \<bar>r / s\<bar> / 2 ^ 53"
    unfolding z_def by (rule double_error)
  moreover have "\<bar>r / s\<bar> \<le> \<bar>of_int k\<bar> + \<bar>of_int k\<bar> / 2 ^ 53"
    using e1 by linarith
  ultimately have e2: "\<bar>z - r / s\<bar> \<le> (\<bar>of_int k\<bar> + \<bar>of_int k\<bar> / 2 ^ 53) / 2 ^ 53"
    by (smt (verit) divide_right_mono zero_le_power)
  have "\<bar>z - of_int k\<bar> \<le> \<bar>z - r / s\<bar> + \<bar>r / s - of_int k\<bar>"
    by linarith
  also have "\<dots> \<le> (\<bar>of_int k\<bar> + \<bar>of_int k\<bar> / 2 ^ 53) / 2 ^ 53 + \<bar>of_int k\<bar> / 2 ^ 53"
    using e1 e2 by linarith
  also have "\<dots> < 1 / 2"
    using kr by (simp add: field_simps)
  finally have "\<bar>z - of_int k\<bar> < 1 / 2" .
  then have "\<lfloor>z + 1 / 2\<rfloor> = k" by linarith
  then show ?thesis unfolding Math_round_def z_def r_def by simp
qed

lemma snapValue_product:
  "0 < s \<Longrightarrow> \<bar>k\<bar> \<le> 2 ^ 50 \<Longrightarrow> snapValue (double (of_int k * s)) s = double (of_int k * s)"
  unfolding snapValue_def by (simp add: count_recovered)

lemma count_bound:
  assumes s: "1 \<le> s" and v: "\<bar>v\<bar> \<le> 2 ^ 49"
  shows "\<bar>\<lfloor>double (v / s) + 1 / 2\<rfloor>\<bar> \<le> 2 ^ 50"
proof -
  have "\<bar>v / s\<bar> = \<bar>v\<bar> / s" using s by simp
  also have "\<dots> \<le> \<bar>v\<bar>"
    using s mult_right_mono [of 1 s "\<bar>v\<bar>"] by (simp add: field_simps)
  finally have q: "\<bar>v / s\<bar> \<le> 2 ^ 49" using v by linarith
  have "\<bar>double (v / s) - v / s\<bar> \<le> \<bar>v / s\<bar> / 2 ^ 53" by (rule double_error)
  moreover have "\<bar>v / s\<bar> / 2 ^ 53 \<le> 2 ^ 49 / 2 ^ 53"
    using q by (simp add: divide_right_mono)
  ultimately have "\<bar>double (v / s)\<bar> \<le> 2 ^ 49 + 2 ^ 49 / 2 ^ 53" using q by linarith
  then have "\<bar>double (v / s)\<bar> \<le> 2 ^ 50 - 1" by simp
  then have "- (2 ^ 50) \<le> \<lfloor>double (v / s) + 1 / 2\<rfloor> \<and> \<lfloor>double (v / s) + 1 / 2\<rfloor> \<le> 2 ^ 50"
    by (simp add: le_floor_iff floor_le_iff) linarith
  then show ?thesis by linarith
qed

lemma snapValue_again:
  assumes "1 \<le> s" and "\<bar>v\<bar> \<le> 2 ^ 49"
  shows "snapValue (snapValue v s) s = snapValue v s"
proof -
  have "snapValue v s = double (of_int \<lfloor>double (v / s) + 1 / 2\<rfloor> * s)"
    by (simp add: snapValue_def Math_round_def)
  moreover have "0 < s" using assms(1) by simp
  ultimately show ?thesis using snapValue_product [OF _ count_bound [OF assms]] by simp
qed

lemma stepH_ge: "1 \<le> stepH_of opts"
  by (simp add: stepH_of_def STUD_PITCH_def)

lemma stepV_ge: "1 \<le> stepV_of opts"
  by (simp add: stepV_of_def PLATE_H_value)

lemma quarter_turn_ge: "1 \<le> degToRad 90"
  by (simp add: quarter_turn_value)

text \<open>The snap written as one record update, with the steps named.\<close>

lemma applySnap_alt:
  "applySnapToMesh lay opts mesh =
     (if \<not> snapEnabled opts \<or> ctrl opts then mesh
      else mesh\<lparr>position_x := snapValue (position_x mesh) (stepH_of opts),
        position_y := snapValue (position_y mesh)
          (case lay of Z_up \<Rightarrow> stepH_of opts | Y_up \<Rightarrow> stepV_of opts),
        position_z := snapValue (position_z mesh)
          (case lay of Z_up \<Rightarrow> stepV_of opts | Y_up \<Rightarrow> stepH_of opts),
        rotation_x := snapValue (rotation_x mesh) (degToRad 90),
        rotation_y := snapValue (rotation_y mesh) (degToRad 90),
        rotation_z := snapValue (rotation_z mesh) (degToRad 90)\<rparr>)"
  by (cases lay) (simp_all add: applySnapToMesh_def snapEulerToDegStep_def Let_def snapValue_def
      stepH_of_def stepV_of_def)

lemma applySnap_on_grid:
  assumes "\<bar>ka\<bar> \<le> 2 ^ 50" "\<bar>kb\<bar> \<le> 2 ^ 50" "\<bar>kv\<bar> \<le> 2 ^ 50"
    "\<bar>jx\<bar> \<le> 2 ^ 50" "\<bar>jy\<bar> \<le> 2 ^ 50" "\<bar>jz\<bar> \<le> 2 ^ 50"
  shows "applySnapToMesh lay opts (on_grid lay opts ka kb kv jx jy jz mesh)
       = on_grid lay opts ka kb kv jx jy jz mesh"
proof -
  have p: "0 < stepH_of opts" "0 < stepV_of opts" "0 < degToRad 90"
    using stepH_ge [of opts] stepV_ge [of opts] quarter_turn_ge by simp_all
  show ?thesis
    using assms p by (cases lay) (simp_all add: applySnap_alt on_grid_def snapValue_product)
qed

lemma applySnap_again:
  assumes "in_snap_range mesh"
  shows "applySnapToMesh lay opts (applySnapToMesh lay opts mesh) = applySnapToMesh lay opts mesh"
  using assms stepH_ge [of opts] stepV_ge [of opts] quarter_turn_ge
  by (cases lay) (simp_all add: applySnap_alt in_snap_range_def snapValue_again)

text \<open>Values of the snap function at the two meshes above.\<close>

lemma snap_forty_eight: "snapValue 48 PLATE_H = 6755399441055743 / 140737488355328"
proof -
  have q: "double (48 / PLATE_H) = 8444249301319681 / 562949953421312"
    unfolding PLATE_H_value
    by (subst double_at [where e = 3]) (simp_all add: round_ties_even_def Let_def)
  have r: "Math_round (8444249301319681 / 562949953421312) = 15"
    by (simp add: Math_round_def)
  have "snapValue 48 PLATE_H = double (15 * PLATE_H)"
    by (simp only: snapValue_def q r)
  also have "\<dots> = 6755399441055743 / 140737488355328"
    unfolding PLATE_H_value
    by (subst double_at [where e = 5]) (simp_all add: round_ties_even_def Let_def)
  finally show ?thesis .
qed

lemma snap_far: "snapValue 9977102046926286 PLATE_H = 9977102046926288"
proof -
  have q: "double (9977102046926286 / PLATE_H) = 6235688779328929 / 2"
    unfolding PLATE_H_value
    by (subst double_at [where e = 51]) (simp_all add: round_ties_even_def Let_def)
  have r: "Math_round (6235688779328929 / 2) = 3117844389664465"
    by (simp add: Math_round_def)
  have "snapValue 9977102046926286 PLATE_H = double (3117844389664465 * PLATE_H)"
    by (simp only: snapValue_def q r)
  also have "\<dots> = 9977102046926288"
    unfolding PLATE_H_value
    by (subst double_at [where e = 53]) (simp_all add: round_ties_even_def Let_def)
  finally show ?thesis .
qed

lemma snap_far_again: "snapValue 9977102046926288 PLATE_H = 9977102046926290"
proof -
  have q: "double (9977102046926288 / PLATE_H) = 6235688779328931 / 2"
    unfolding PLATE_H_value
    by (subst double_at [where e = 51]) (simp_all add: round_ties_even_def Let_def)
  have r: "Math_round (6235688779328931 / 2) = 3117844389664466"
    by (simp add: Math_round_def)
  have "snapValue 9977102046926288 PLATE_H = double (3117844389664466 * PLATE_H)"
    by (simp only: snapValue_def q r)
  also have "\<dots> = 9977102046926290"
    unfolding PLATE_H_value
    by (subst double_at [where e = 53]) (simp_all add: round_ties_even_def Let_def)
  finally show ?thesis .
qed

lemma snapValue_zero [simp]: "snapValue 0 s = 0"
  by (simp add: snapValue_def Math_round_def)

lemma snap_thirteen: "snapValue 13 8 = 16"
proof -
  have q: "double (13 / 8) = 13 / 8"
    by (subst double_at [where e = 0]) (simp_all add: round_ties_even_def Let_def)
  have r: "Math_round (13 / 8) = 2"
    by (simp add: Math_round_def)
  have "snapValue 13 8 = double (2 * 8)"
    by (simp only: snapValue_def q r)
  also have "\<dots> = 16"
    by (subst double_at [where e = 4]) (simp_all add: round_ties_even_def Let_def)
  finally show ?thesis .
qed

lemma level_five_snapped:
  "position_y (applySnapToMesh Y_up opts_all_on level_five_mesh)
     = 6755399441055743 / 140737488355328"
  by (simp add: applySnap_alt opts_all_on_def level_five_mesh_def stepV_of_def snap_forty_eight)

lemma far_snapped:
  "position_y (applySnapToMesh Y_up opts_all_on far_mesh) = 9977102046926288"
  "position_y (applySnapToMesh Y_up opts_all_on (applySnapToMesh Y_up opts_all_on far_mesh))
     = 9977102046926290"
  by (simp_all add: applySnap_alt opts_all_on_def far_mesh_def stepV_of_def snap_far
      snap_far_again)

text \<open>
  C8 (amended). The commit-time snap returns unchanged every transform whose coordinates
  are double-precision products of a whole number below \<open>2 ^ 50\<close> with the active pitch,
  the active level height and the quarter turn; and for a transform whose coordinates do
  not exceed \<open>2 ^ 49\<close>, snapping the result of a snap changes nothing. Both hold in
  either revision and for every setting of the snap switches.
\<close>

theorem snap_idempotent:
  "(\<bar>ka\<bar> \<le> 2 ^ 50 \<and> \<bar>kb\<bar> \<le> 2 ^ 50 \<and> \<bar>kv\<bar> \<le> 2 ^ 50 \<and>
    \<bar>jx\<bar> \<le> 2 ^ 50 \<and> \<bar>jy\<bar> \<le> 2 ^ 50 \<and> \<bar>jz\<bar> \<le> 2 ^ 50 \<longrightarrow>
      applySnapToMesh lay opts (on_grid lay opts ka kb kv jx jy jz mesh)
        = on_grid lay opts ka kb kv jx jy jz mesh) \<and>
   (in_snap_range mesh \<longrightarrow>
      applySnapToMesh lay opts (applySnapToMesh lay opts mesh) = applySnapToMesh lay opts mesh)"
  using applySnap_on_grid applySnap_again by blast

theorem snap_idempotent_witness:
  "in_snap_range sample_mesh \<and>
   applySnapToMesh Y_up opts_all_on (on_grid Y_up opts_all_on 2 (- 1) 15 0 1 (- 2) sample_mesh)
     = on_grid Y_up opts_all_on 2 (- 1) 15 0 1 (- 2) sample_mesh \<and>
   applySnapToMesh Y_up opts_all_on (applySnapToMesh Y_up opts_all_on sample_mesh)
     = applySnapToMesh Y_up opts_all_on sample_mesh"
  using snap_idempotent [of 2 "- 1" 15 0 1 "- 2" Y_up opts_all_on sample_mesh]
  by (simp add: in_snap_range_def sample_mesh_def)

text \<open>
  The height 48 is not such a product: the level height of the code is the double below
  16/5, and the snap moves the mesh down by one unit in the last place. Far from the
  origin the snap of a snapped transform moves it again.
\<close>

theorem snap_idempotent_counterexample:
  "position_y level_five_mesh = 48 \<and>
   position_y (applySnapToMesh Y_up opts_all_on level_five_mesh)
     = 6755399441055743 / 140737488355328 \<and>
   applySnapToMesh Y_up opts_all_on level_five_mesh \<noteq> level_five_mesh \<and>
   position_y (applySnapToMesh Y_up opts_all_on far_mesh) = 9977102046926288 \<and>
   position_y (applySnapToMesh Y_up opts_all_on (applySnapToMesh Y_up opts_all_on far_mesh))
     = 9977102046926290 \<and>
   applySnapToMesh Y_up opts_all_on (applySnapToMesh Y_up opts_all_on far_mesh)
     \<noteq> applySnapToMesh Y_up opts_all_on far_mesh"
proof -
  have a: "position_y level_five_mesh = 48"
    by (simp add: level_five_mesh_def)
  have "position_y (applySnapToMesh Y_up opts_all_on level_five_mesh) \<noteq> position_y level_five_mesh"
    unfolding level_five_snapped a by simp
  then have b: "applySnapToMesh Y_up opts_all_on level_five_mesh \<noteq> level_five_mesh"
    by auto
  have "position_y (applySnapToMesh Y_up opts_all_on (applySnapToMesh Y_up opts_all_on far_mesh))
      \<noteq> position_y (applySnapToMesh Y_up opts_all_on far_mesh)"
    unfolding far_snapped by simp
  then have c: "applySnapToMesh Y_up opts_all_on (applySnapToMesh Y_up opts_all_on far_mesh)
      \<noteq> applySnapToMesh Y_up opts_all_on far_mesh"
    by auto
  from a b c level_five_snapped far_snapped show ?thesis by simp
qed

section \<open>The component state\<close>

text \<open>
  The state of the scene component between two events: the Part list and the step cursor
  (framework state), and the mutable references the handlers read and write: the manual
  selection, the scene meshes, the flags of the transform handle, and the highlight
  bookkeeping of the revision. The second revision keeps the auto-highlight index and
  the cursor seen by the last step transition (\<open>autoHighlightIdx\<close>, \<open>prevStep\<close>); the
  first keeps the index of the mesh it highlighted last (\<open>prevSelectedIndex\<close>).
  \<open>pending_rebuild\<close> belongs to a rebuild that still waits for its geometry and has not
  been cancelled: it holds what that rebuild captured when it started, the visible count
  in the second revision and the cursor in the first. \<open>opts\<close> holds the three snap
  switches as last rendered and the Control key. The geometry of a mesh is not part of
  this state; the geometry cache is modelled on its own below.
\<close>

record env =
  bricks :: "brick list"
  step :: int
  prevStep :: int
  selectedIndex :: "nat option"
  autoHighlightIdx :: "nat option"
  prevSelectedIndex :: "nat option"
  brickMeshes :: "object3D list"
  opts :: snap_options
  gizmoActive :: bool
  orbit_enabled :: bool
  pending_rebuild :: "int option"

definition visibleCount_of :: "int \<Rightarrow> brick list \<Rightarrow> int" where
  "visibleCount_of s bs = max 0 (min s (int (length bs)))"

text \<open>The effect that copies Part fields into an existing mesh, common to both revisions.\<close>

definition sync_mesh :: "int \<Rightarrow> nat \<Rightarrow> brick \<Rightarrow> object3D \<Rightarrow> object3D" where
  "sync_mesh visibleCount i b mesh =
     mesh\<lparr>visible := (int i < visibleCount),
          position_x := xMm b, position_y := yMm b, position_z := zMm b,
          rotation_x := degToRad (rotX b), rotation_y := degToRad (rotY b),
          rotation_z := degToRad (rotZ b)\<rparr>"

subsection \<open>Effects of the second revision\<close>

definition last_revealed :: "int \<Rightarrow> nat option" where
  "last_revealed visibleCount = (if visibleCount > 0 then Some (nat (visibleCount - 1)) else None)"

definition emissive_for :: "nat option \<Rightarrow> nat option \<Rightarrow> nat \<Rightarrow> emissive" where
  "emissive_for sel auto i =
     (let isSelected = (sel = Some i);
          isAuto = (auto = Some i \<and> sel = None)
      in if isSelected then SelectEmissive
         else if isAuto then AutoEmissive
         else NoEmissive)"

text \<open>
  \<^verbatim>\<open>applyMaterialState\<close> sets the emissive colour of one mesh from the two indices;
  \<^verbatim>\<open>refreshAllMaterials\<close> runs it over all meshes in a loop.
\<close>

definition applyMaterialState :: "nat option \<Rightarrow> nat option \<Rightarrow> nat \<Rightarrow> object3D list \<Rightarrow> object3D list" where
  "applyMaterialState sel auto i meshes =
     (if i < length meshes
      then meshes[i := (meshes ! i)\<lparr>material_emissive := emissive_for sel auto i\<rparr>]
      else meshes)"

definition refreshAllMaterials :: "env \<Rightarrow> env" where
  "refreshAllMaterials st =
     st\<lparr>brickMeshes :=
          fold (applyMaterialState (selectedIndex st) (autoHighlightIdx st))
            [0 ..< length (brickMeshes st)] (brickMeshes st)\<rparr>"

definition setAutoHighlight :: "nat option \<Rightarrow> env \<Rightarrow> env" where
  "setAutoHighlight idx st = refreshAllMaterials (st\<lparr>autoHighlightIdx := idx\<rparr>)"

text \<open>
  The part of the rebuild that runs before its first suspension: the old meshes are
  dropped, the selection and the auto-highlight are cleared, and one placeholder mesh
  per Part is created at the Part's transform.
\<close>

definition placeholder_mesh :: "int \<Rightarrow> nat \<Rightarrow> brick \<Rightarrow> object3D" where
  "placeholder_mesh visibleCount i b =
     \<lparr>position_x = xMm b, position_y = yMm b, position_z = zMm b,
      rotation_x = degToRad (rotX b), rotation_y = degToRad (rotY b),
      rotation_z = degToRad (rotZ b),
      visible = (int i < visibleCount), material_emissive = NoEmissive,
      material_blend = False\<rparr>"

definition rebuildProgressive :: "env \<Rightarrow> env" where
  "rebuildProgressive st =
     (let bricksNow = bricks st;
          visibleCount = visibleCount_of (step st) bricksNow;
          st1 = setAutoHighlight None (st\<lparr>brickMeshes := [], selectedIndex := None\<rparr>);
          st2 = st1\<lparr>brickMeshes :=
                  map (\<lambda>(i, b). placeholder_mesh visibleCount i b) (enumerate 0 bricksNow)\<rparr>
      in (refreshAllMaterials st2)\<lparr>pending_rebuild := Some visibleCount\<rparr>)"

text \<open>
  The continuation of the rebuild after all geometry requests have settled (a failed
  request is caught and counted). It runs only for a rebuild that was not cancelled;
  a later rebuild replaces \<open>pending_rebuild\<close>.
\<close>

definition rebuild_completed :: "env \<Rightarrow> env" where
  "rebuild_completed st =
     (case pending_rebuild st of
        None \<Rightarrow> st
      | Some visibleCount \<Rightarrow>
          (let idx = last_revealed visibleCount;
               st1 = (if selectedIndex st = None then setAutoHighlight idx st else st)
           in st1\<lparr>pending_rebuild := None\<rparr>))"

text \<open>The effect that copies Part fields into the existing meshes, without a rebuild.\<close>

definition syncTransforms :: "env \<Rightarrow> env" where
  "syncTransforms st =
     (let meshes = brickMeshes st in
      if meshes = [] then st
      else
        let visibleCount = visibleCount_of (step st) (bricks st) in
        refreshAllMaterials
          (st\<lparr>brickMeshes :=
               map (\<lambda>(i, mesh). if i < length (bricks st)
                                 then sync_mesh visibleCount i (bricks st ! i) mesh else mesh)
                 (enumerate 0 meshes)\<rparr>))"

text \<open>The step-transition effect: it acts only when the cursor has grown.\<close>

definition stepTransition :: "env \<Rightarrow> env" where
  "stepTransition st =
     (let prev = prevStep st;
          st1 = st\<lparr>prevStep := step st\<rparr>
      in if step st > prev
         then (let idx = last_revealed (visibleCount_of (step st) (bricks st))
               in if selectedIndex st1 = None then setAutoHighlight idx st1 else st1)
         else st1)"

subsection \<open>Effects of the first revision\<close>

text \<open>
  \<^verbatim>\<open>setBrickHighlight\<close> sets the material colour of one mesh to the blend or back to
  the Part's colour; it does nothing when the index has no mesh or no Part.
\<close>

definition setBrickHighlight :: "nat \<Rightarrow> bool \<Rightarrow> env \<Rightarrow> env" where
  "setBrickHighlight brickIndex on st =
     (if brickIndex < length (brickMeshes st) \<and> brickIndex < length (bricks st)
      then st\<lparr>brickMeshes := (brickMeshes st)[brickIndex :=
                 (brickMeshes st ! brickIndex)\<lparr>material_blend := on\<rparr>]\<rparr>
      else st)"

text \<open>The two lines that take the highlight off the mesh highlighted last.\<close>

definition clear_previous :: "env \<Rightarrow> env" where
  "clear_previous st =
     (case prevSelectedIndex st of
        None \<Rightarrow> st
      | Some prev \<Rightarrow> setBrickHighlight prev False st)"

text \<open>
  The auto-highlight effect, which runs when the cursor has changed. It has no test on
  the direction of the change.
\<close>

definition autoHighlight :: "env \<Rightarrow> env" where
  "autoHighlight st =
     (if selectedIndex st \<noteq> None then st
      else
        let last = step st - 1 in
        if last < 0 then st
        else setBrickHighlight (nat last) True
               ((clear_previous st)\<lparr>prevSelectedIndex := Some (nat last)\<rparr>))"

text \<open>
  The rebuild of the first revision drops the meshes and clears both indices before it
  waits for the geometry of each kind in turn; with no Part there is nothing to wait for
  and it finishes at once. The meshes are created when it resumes, from the Part list of
  that moment and the cursor it captured.
\<close>

definition rebuild :: "env \<Rightarrow> env" where
  "rebuild st =
     (let st1 = st\<lparr>brickMeshes := [], selectedIndex := None, prevSelectedIndex := None\<rparr>
      in if bricks st = [] then st1\<lparr>pending_rebuild := None\<rparr>
         else st1\<lparr>pending_rebuild := Some (step st)\<rparr>)"

definition built_mesh :: "int \<Rightarrow> nat \<Rightarrow> brick \<Rightarrow> object3D" where
  "built_mesh visibleCount i b =
     \<lparr>position_x = xMm b, position_y = yMm b, position_z = zMm b,
      rotation_x = degToRad (rotX b), rotation_y = degToRad (rotY b),
      rotation_z = degToRad (rotZ b),
      visible = (int i < visibleCount), material_emissive = NoEmissive,
      material_blend = False\<rparr>"

definition rebuild_resumed :: "env \<Rightarrow> env" where
  "rebuild_resumed st =
     (case pending_rebuild st of
        None \<Rightarrow> st
      | Some s \<Rightarrow>
          (let visibleCount = visibleCount_of s (bricks st)
           in st\<lparr>brickMeshes :=
                   map (\<lambda>(i, b). built_mesh visibleCount i b) (enumerate 0 (bricks st)),
                 pending_rebuild := None\<rparr>))"

text \<open>
  The sync effect of the first revision also sets the material colour: the blend for the
  mesh of the manual selection, the Part's colour for every other mesh.
\<close>

definition syncColors :: "env \<Rightarrow> env" where
  "syncColors st =
     (let meshes = brickMeshes st in
      if meshes = [] then st
      else
        let visibleCount = visibleCount_of (step st) (bricks st) in
        st\<lparr>brickMeshes :=
             map (\<lambda>(i, mesh). if i < length (bricks st)
                               then (sync_mesh visibleCount i (bricks st ! i) mesh)
                                      \<lparr>material_blend := (selectedIndex st = Some i)\<rparr>
                               else mesh)
               (enumerate 0 meshes)\<rparr>)"

subsection \<open>State updates\<close>

text \<open>
  A state update followed by the effects whose dependencies changed, in the order of
  their declaration. Setting the cursor to its present value causes no render. In the
  first revision a changed cursor runs the auto-highlight effect, the rebuild and the
  sync; in the second the rebuild, the sync and the step transition. A new Part list
  runs the clamp of the cursor (queued, applied after the other effects), the rebuild
  when the length or the kinds changed, the sync, and in the second revision the step
  transition when the length changed.
\<close>

definition setStep :: "layout \<Rightarrow> int \<Rightarrow> env \<Rightarrow> env" where
  "setStep lay s st =
     (if s = step st then st
      else
        case lay of
          Z_up \<Rightarrow> syncColors (rebuild (autoHighlight (st\<lparr>step := s\<rparr>)))
        | Y_up \<Rightarrow> stepTransition (syncTransforms (rebuildProgressive (st\<lparr>step := s\<rparr>))))"

fun join_kinds :: "string list \<Rightarrow> string" where
  "join_kinds [] = []"
| "join_kinds [k] = k"
| "join_kinds (k # ks) = k @ ''|'' @ join_kinds ks"

definition kindsKey :: "brick list \<Rightarrow> string" where
  "kindsKey bs = join_kinds (map kind bs)"

definition setBricks :: "layout \<Rightarrow> brick list \<Rightarrow> env \<Rightarrow> env" where
  "setBricks lay new st =
     (let lengthChanged = (length new \<noteq> length (bricks st));
          kindsChanged = (kindsKey new \<noteq> kindsKey (bricks st));
          st1 = st\<lparr>bricks := new\<rparr>;
          clamped = (if lengthChanged then min (step st1) (int (length new)) else step st1)
      in case lay of
           Z_up \<Rightarrow>
             (let st2 = (if lengthChanged \<or> kindsChanged then rebuild st1 else st1);
                  st3 = syncColors st2
              in setStep lay clamped st3)
         | Y_up \<Rightarrow>
             (let st2 = (if lengthChanged \<or> kindsChanged then rebuildProgressive st1 else st1);
                  st3 = syncTransforms st2;
                  st4 = (if lengthChanged then stepTransition st3 else st3)
              in setStep lay clamped st4))"

section \<open>Commit at drag end\<close>

text \<open>
  The listeners of the transform handle are registered once, by the effect that sets the
  scene up when the component mounts. The commit function they call is therefore the one
  of the first render, and the snap function it calls reads the three snap switches of
  that render, which are the initial values of the switches. Only the Control key, kept
  in a mutable reference, is read as it is at the release.
\<close>

definition listener_options :: "env \<Rightarrow> snap_options" where
  "listener_options st =
     \<lparr>snapEnabled = True, snapStud = True, snapLevels = True, ctrl = ctrl (opts st)\<rparr>"

definition commitSelectedMeshToState :: "layout \<Rightarrow> env \<Rightarrow> env" where
  "commitSelectedMeshToState lay st =
     (case selectedIndex st of
        None \<Rightarrow> st
      | Some idx \<Rightarrow>
          if \<not> idx < length (brickMeshes st) then st
          else
            let mesh = applySnapToMesh lay (listener_options st) (brickMeshes st ! idx);
                st1 = st\<lparr>brickMeshes := (brickMeshes st)[idx := mesh]\<rparr>;
                prev = bricks st1
            in if \<not> idx < length prev then st1
               else setBricks lay
                      (prev[idx := (prev ! idx)
                         \<lparr>xMm := position_x mesh, yMm := position_y mesh, zMm := position_z mesh,
                          rotX := radToDeg (rotation_x mesh),
                          rotY := radToDeg (rotation_y mesh),
                          rotZ := radToDeg (rotation_z mesh)\<rparr>])
                      st1)"

definition applySelectedColor :: "layout \<Rightarrow> real \<times> real \<times> real \<Rightarrow> env \<Rightarrow> env" where
  "applySelectedColor lay rgb st =
     (case selectedIndex st of
        None \<Rightarrow> st
      | Some idx \<Rightarrow>
          let prev = bricks st in
          if \<not> idx < length prev then st
          else setBricks lay (prev[idx := (prev ! idx)\<lparr>color := rgb\<rparr>]) st)"

text \<open>
  The notifications of the transform handle. \<open>ObjectChange\<close> is the handle moving the
  attached mesh while the pointer drags; the component registers no listener for it.
  The handle is attached to the mesh of the manual selection.
\<close>

datatype gizmo_event =
    MouseDown
  | MouseUp
  | DraggingChanged bool
  | ObjectChange real real real real real real

definition transformControls :: "layout \<Rightarrow> gizmo_event \<Rightarrow> env \<Rightarrow> env" where
  "transformControls lay ev st =
     (case ev of
        MouseDown \<Rightarrow> st\<lparr>gizmoActive := True, orbit_enabled := False\<rparr>
      | MouseUp \<Rightarrow>
          commitSelectedMeshToState lay (st\<lparr>gizmoActive := False, orbit_enabled := True\<rparr>)
      | DraggingChanged v \<Rightarrow>
          (let st1 = st\<lparr>orbit_enabled := \<not> v\<rparr>
           in if \<not> v then commitSelectedMeshToState lay st1 else st1)
      | ObjectChange px py pz rx ry rz \<Rightarrow>
          (case selectedIndex st of
             None \<Rightarrow> st
           | Some idx \<Rightarrow>
               if \<not> idx < length (brickMeshes st) then st
               else st\<lparr>brickMeshes := (brickMeshes st)[idx := (brickMeshes st ! idx)
                      \<lparr>position_x := px, position_y := py, position_z := pz,
                       rotation_x := rx, rotation_y := ry, rotation_z := rz\<rparr>]\<rparr>))"

text \<open>
  A primary-button press that is not on the handle, with the result of the ray cast
  against the visible meshes. When the hit index has no Part, reading the Part's colour
  raises and the listener stops after having stored the selection.
\<close>

definition onPointerDown :: "layout \<Rightarrow> nat option \<Rightarrow> env \<Rightarrow> env" where
  "onPointerDown lay hit st =
     (if gizmoActive st then st
      else if brickMeshes st = [] then st
      else
        case lay of
          Z_up \<Rightarrow>
            (case hit of
               None \<Rightarrow> (clear_previous st)\<lparr>selectedIndex := None, prevSelectedIndex := None\<rparr>
             | Some idx \<Rightarrow>
                 (let st1 = (clear_previous st)
                              \<lparr>selectedIndex := Some idx, prevSelectedIndex := Some idx\<rparr>
                  in if \<not> idx < length (bricks st) then st1
                     else setBrickHighlight idx True st1))
        | Y_up \<Rightarrow>
            (case hit of
               None \<Rightarrow>
                 setAutoHighlight (last_revealed (visibleCount_of (step st) (bricks st)))
                   (st\<lparr>selectedIndex := None\<rparr>)
             | Some idx \<Rightarrow>
                 (let st1 = st\<lparr>selectedIndex := Some idx\<rparr>
                  in if \<not> idx < length (bricks st) then st1
                     else refreshAllMaterials (setAutoHighlight None st1))))"

definition onEscape :: "layout \<Rightarrow> env \<Rightarrow> env" where
  "onEscape lay st =
     (case lay of
        Z_up \<Rightarrow> (clear_previous st)\<lparr>selectedIndex := None, prevSelectedIndex := None\<rparr>
      | Y_up \<Rightarrow>
          setAutoHighlight (last_revealed (visibleCount_of (step st) (bricks st)))
            (st\<lparr>selectedIndex := None\<rparr>))"

section \<open>Events\<close>

text \<open>
  The events of the user interface and of the environment: the step slider and buttons,
  the keys, a new Part list from a changed description, a pointer press with its pick
  result, the notifications of the transform handle, the colour input, the snap
  switches and the Control key, a changed geometry parameter, the completion of the
  pending rebuild, and the rejection of a geometry request of the pending rebuild. The
  first revision has no handler for the Enter and Backspace keys. A rejected request
  ends its rebuild; the second revision catches the rejection and goes on.
\<close>

datatype event =
    Slider int
  | Prev
  | Next
  | ShowAll
  | KeyEnter
  | KeyBackspace
  | KeyEscape
  | Reparse "brick list"
  | PointerDown "nat option"
  | Gizmo gizmo_event
  | ColorInput "real \<times> real \<times> real"
  | SnapEnabledBox bool
  | SnapStudBox bool
  | SnapLevelsBox bool
  | ControlKey bool
  | GeomParams
  | RebuildDone
  | GeometryRejected

definition handle :: "layout \<Rightarrow> event \<Rightarrow> env \<Rightarrow> env" where
  "handle lay ev st =
     (case ev of
        Slider v \<Rightarrow> setStep lay v st
      | Prev \<Rightarrow> setStep lay (max 0 (step st - 1)) st
      | Next \<Rightarrow> setStep lay (min (int (length (bricks st))) (step st + 1)) st
      | ShowAll \<Rightarrow> setStep lay (int (length (bricks st))) st
      | KeyEnter \<Rightarrow>
          (case lay of
             Z_up \<Rightarrow> st
           | Y_up \<Rightarrow> setStep lay (min (int (length (bricks st))) (step st + 1)) st)
      | KeyBackspace \<Rightarrow>
          (case lay of
             Z_up \<Rightarrow> st
           | Y_up \<Rightarrow> setStep lay (max 0 (step st - 1)) st)
      | KeyEscape \<Rightarrow> onEscape lay st
      | Reparse bs \<Rightarrow> setBricks lay bs st
      | PointerDown hit \<Rightarrow> onPointerDown lay hit st
      | Gizmo g \<Rightarrow> transformControls lay g st
      | ColorInput rgb \<Rightarrow> applySelectedColor lay rgb st
      | SnapEnabledBox v \<Rightarrow> st\<lparr>opts := (opts st)\<lparr>snapEnabled := v\<rparr>\<rparr>
      | SnapStudBox v \<Rightarrow> st\<lparr>opts := (opts st)\<lparr>snapStud := v\<rparr>\<rparr>
      | SnapLevelsBox v \<Rightarrow> st\<lparr>opts := (opts st)\<lparr>snapLevels := v\<rparr>\<rparr>
      | ControlKey v \<Rightarrow> st\<lparr>opts := (opts st)\<lparr>ctrl := v\<rparr>\<rparr>
      | GeomParams \<Rightarrow> (case lay of Z_up \<Rightarrow> rebuild st | Y_up \<Rightarrow> rebuildProgressive st)
      | RebuildDone \<Rightarrow> (case lay of Z_up \<Rightarrow> rebuild_resumed st | Y_up \<Rightarrow> rebuild_completed st)
      | GeometryRejected \<Rightarrow> (case lay of Z_up \<Rightarrow> st\<lparr>pending_rebuild := None\<rparr> | Y_up \<Rightarrow> st))"

text \<open>
  What the environment guarantees of an event: the slider delivers a value of its range,
  and the ray cast returns a mesh of the list it was given.
\<close>

definition valid_event :: "env \<Rightarrow> event \<Rightarrow> bool" where
  "valid_event st ev =
     (case ev of
        Slider v \<Rightarrow> 0 \<le> v \<and> v \<le> int (length (bricks st))
      | PointerDown (Some idx) \<Rightarrow> idx < length (brickMeshes st) \<and> visible (brickMeshes st ! idx)
      | _ \<Rightarrow> True)"

fun run_events :: "layout \<Rightarrow> event list \<Rightarrow> env \<Rightarrow> env" where
  "run_events lay [] st = st"
| "run_events lay (ev # evs) st = run_events lay evs (handle lay ev st)"

fun events_valid :: "layout \<Rightarrow> event list \<Rightarrow> env \<Rightarrow> bool" where
  "events_valid lay [] st = True"
| "events_valid lay (ev # evs) st = (valid_event st ev \<and> events_valid lay evs (handle lay ev st))"

text \<open>
  The state after the component has mounted with an initial Part list: the first render
  and its effects.
\<close>

definition first_render :: "brick list \<Rightarrow> env" where
  "first_render bs =
     \<lparr>bricks = bs, step = 0, prevStep = 0, selectedIndex = None, autoHighlightIdx = None,
      prevSelectedIndex = None, brickMeshes = [],
      opts = \<lparr>snapEnabled = True, snapStud = True, snapLevels = True, ctrl = False\<rparr>,
      gizmoActive = False, orbit_enabled = True, pending_rebuild = None\<rparr>"

definition mounted :: "layout \<Rightarrow> brick list \<Rightarrow> env" where
  "mounted lay bs =
     (case lay of
        Z_up \<Rightarrow> syncColors (rebuild (autoHighlight (first_render bs)))
      | Y_up \<Rightarrow> stepTransition (syncTransforms (rebuildProgressive (first_render bs))))"

section \<open>Invariants of the component state\<close>

subsection \<open>Second revision\<close>

text \<open>Every mesh carries the emissive colour that the two indices prescribe.\<close>

definition materials_ok :: "env \<Rightarrow> bool" where
  "materials_ok st =
     list_all (\<lambda>(i, mesh). material_emissive mesh
                  = emissive_for (selectedIndex st) (autoHighlightIdx st) i)
       (enumerate 0 (brickMeshes st))"

lemma materials_ok_iff:
  "materials_ok st \<longleftrightarrow>
     (\<forall>i < length (brickMeshes st). material_emissive (brickMeshes st ! i)
          = emissive_for (selectedIndex st) (autoHighlightIdx st) i)"
  unfolding materials_ok_def list_all_length by (auto simp: nth_enumerate_eq)

lemma applyMaterialState_length [simp]:
  "length (applyMaterialState sel auto i ms) = length ms"
  by (simp add: applyMaterialState_def)

lemma applyMaterialState_nth:
  "j < length ms \<Longrightarrow> applyMaterialState sel auto i ms ! j =
     (if j = i then (ms ! j)\<lparr>material_emissive := emissive_for sel auto j\<rparr> else ms ! j)"
  by (simp add: applyMaterialState_def nth_list_update)

lemma fold_applyMaterialState_length [simp]:
  "length (fold (applyMaterialState sel auto) is ms) = length ms"
  by (induction "is" arbitrary: ms) simp_all

lemma fold_applyMaterialState:
  "i < length ms \<Longrightarrow>
     fold (applyMaterialState sel auto) [0 ..< n] ms ! i =
        (if i < n then (ms ! i)\<lparr>material_emissive := emissive_for sel auto i\<rparr> else ms ! i)"
proof (induction n arbitrary: i)
  case 0
  then show ?case by simp
next
  case (Suc n)
  then show ?case
    by (auto simp: applyMaterialState_nth less_Suc_eq)
qed

lemma refresh_meshes:
  "brickMeshes (refreshAllMaterials st) =
     map (\<lambda>(i, mesh). mesh\<lparr>material_emissive :=
            emissive_for (selectedIndex st) (autoHighlightIdx st) i\<rparr>)
       (enumerate 0 (brickMeshes st))"
  unfolding refreshAllMaterials_def
  by (intro nth_equalityI) (simp_all add: nth_enumerate_eq fold_applyMaterialState)

lemma refresh_fields [simp]:
  "bricks (refreshAllMaterials st) = bricks st"
  "step (refreshAllMaterials st) = step st"
  "prevStep (refreshAllMaterials st) = prevStep st"
  "selectedIndex (refreshAllMaterials st) = selectedIndex st"
  "autoHighlightIdx (refreshAllMaterials st) = autoHighlightIdx st"
  "opts (refreshAllMaterials st) = opts st"
  "gizmoActive (refreshAllMaterials st) = gizmoActive st"
  "pending_rebuild (refreshAllMaterials st) = pending_rebuild st"
  "length (brickMeshes (refreshAllMaterials st)) = length (brickMeshes st)"
  by (simp_all add: refreshAllMaterials_def)

lemma refresh_ok [simp]: "materials_ok (refreshAllMaterials st)"
  by (simp add: materials_ok_iff refresh_meshes nth_enumerate_eq)

lemma setAuto_fields [simp]:
  "bricks (setAutoHighlight idx st) = bricks st"
  "step (setAutoHighlight idx st) = step st"
  "prevStep (setAutoHighlight idx st) = prevStep st"
  "selectedIndex (setAutoHighlight idx st) = selectedIndex st"
  "autoHighlightIdx (setAutoHighlight idx st) = idx"
  "opts (setAutoHighlight idx st) = opts st"
  "gizmoActive (setAutoHighlight idx st) = gizmoActive st"
  "pending_rebuild (setAutoHighlight idx st) = pending_rebuild st"
  "length (brickMeshes (setAutoHighlight idx st)) = length (brickMeshes st)"
  "materials_ok (setAutoHighlight idx st)"
  by (simp_all add: setAutoHighlight_def)

lemma rebuild_fields [simp]:
  "bricks (rebuildProgressive st) = bricks st"
  "step (rebuildProgressive st) = step st"
  "prevStep (rebuildProgressive st) = prevStep st"
  "selectedIndex (rebuildProgressive st) = None"
  "autoHighlightIdx (rebuildProgressive st) = None"
  "opts (rebuildProgressive st) = opts st"
  "gizmoActive (rebuildProgressive st) = gizmoActive st"
  "pending_rebuild (rebuildProgressive st) = Some (visibleCount_of (step st) (bricks st))"
  "length (brickMeshes (rebuildProgressive st)) = length (bricks st)"
  by (simp_all add: rebuildProgressive_def Let_def)

lemma rebuild_ok [simp]: "materials_ok (rebuildProgressive st)"
proof -
  have "materials_ok (refreshAllMaterials x)" for x by simp
  then have "materials_ok ((refreshAllMaterials x)\<lparr>pending_rebuild := p\<rparr>)" for x p
    by (simp add: materials_ok_def)
  then show ?thesis
    unfolding rebuildProgressive_def Let_def by blast
qed

lemma sync_fields [simp]:
  "bricks (syncTransforms st) = bricks st"
  "step (syncTransforms st) = step st"
  "prevStep (syncTransforms st) = prevStep st"
  "selectedIndex (syncTransforms st) = selectedIndex st"
  "autoHighlightIdx (syncTransforms st) = autoHighlightIdx st"
  "opts (syncTransforms st) = opts st"
  "gizmoActive (syncTransforms st) = gizmoActive st"
  "pending_rebuild (syncTransforms st) = pending_rebuild st"
  "length (brickMeshes (syncTransforms st)) = length (brickMeshes st)"
  by (simp_all add: syncTransforms_def Let_def)

lemma stepTransition_fields [simp]:
  "bricks (stepTransition st) = bricks st"
  "step (stepTransition st) = step st"
  "prevStep (stepTransition st) = step st"
  "selectedIndex (stepTransition st) = selectedIndex st"
  "opts (stepTransition st) = opts st"
  "gizmoActive (stepTransition st) = gizmoActive st"
  "pending_rebuild (stepTransition st) = pending_rebuild st"
  "length (brickMeshes (stepTransition st)) = length (brickMeshes st)"
  by (simp_all add: stepTransition_def Let_def)

lemma materials_ok_prevStep [simp]: "materials_ok (st\<lparr>prevStep := p\<rparr>) = materials_ok st"
  by (simp add: materials_ok_def)

lemma stepTransition_ok [simp]: "materials_ok st \<Longrightarrow> materials_ok (stepTransition st)"
  by (simp add: stepTransition_def Let_def)

text \<open>
  The state invariant: the cursor lies within the Part list, the last step transition
  has seen the present cursor, there is one mesh per Part, and the materials agree with
  the selection and the auto-highlight.
\<close>

definition env_ok :: "env \<Rightarrow> bool" where
  "env_ok st =
     (0 \<le> step st \<and> step st \<le> int (length (bricks st)) \<and> prevStep st = step st \<and>
      length (brickMeshes st) = length (bricks st) \<and> materials_ok st)"

lemma sync_ok_always [simp]: "materials_ok (syncTransforms st)"
proof (cases "brickMeshes st = []")
  case True
  then show ?thesis by (simp add: syncTransforms_def materials_ok_def)
next
  case False
  have "materials_ok (refreshAllMaterials x)" for x by simp
  with False show ?thesis by (simp add: syncTransforms_def Let_def)
qed

lemma setStep_inv:
  assumes "env_ok st" "0 \<le> s" "s \<le> int (length (bricks st))"
  shows "env_ok (setStep Y_up s st)"
  using assms by (simp add: setStep_def env_ok_def)

lemma setStep_fields [simp]:
  "bricks (setStep Y_up s st) = bricks st"
  "step (setStep Y_up s st) = s"
  "opts (setStep Y_up s st) = opts st"
  by (simp_all add: setStep_def)

lemma setBricks_fields [simp]:
  "bricks (setBricks Y_up new st) = new"
  "opts (setBricks Y_up new st) = opts st"
  by (simp_all add: setBricks_def Let_def)

lemma setBricks_unfold:
  "setBricks Y_up new st =
     setStep Y_up
       (if length new \<noteq> length (bricks st) then min (step st) (int (length new)) else step st)
       (let st3 = syncTransforms
                    (if length new \<noteq> length (bricks st) \<or> kindsKey new \<noteq> kindsKey (bricks st)
                     then rebuildProgressive (st\<lparr>bricks := new\<rparr>) else st\<lparr>bricks := new\<rparr>)
        in if length new \<noteq> length (bricks st) then stepTransition st3 else st3)"
  by (simp add: setBricks_def Let_def)

lemma setBricks_inv:
  assumes "env_ok st"
  shows "env_ok (setBricks Y_up new st)"
proof -
  define lc where "lc = (length new \<noteq> length (bricks st))"
  define kc where "kc = (kindsKey new \<noteq> kindsKey (bricks st))"
  define st1 where "st1 = st\<lparr>bricks := new\<rparr>"
  define clamped where "clamped = (if lc then min (step st1) (int (length new)) else step st1)"
  define st2 where "st2 = (if lc \<or> kc then rebuildProgressive st1 else st1)"
  define st3 where "st3 = syncTransforms st2"
  define st4 where "st4 = (if lc then stepTransition st3 else st3)"
  have eq: "setBricks Y_up new st = setStep Y_up clamped st4"
    by (simp add: setBricks_unfold Let_def lc_def kc_def st1_def clamped_def st2_def st3_def
        st4_def)
  have b4: "bricks st4 = new" by (simp add: st4_def st3_def st2_def st1_def)
  have s4: "step st4 = step st" by (simp add: st4_def st3_def st2_def st1_def)
  have p4: "prevStep st4 = step st"
    using assms by (simp add: st4_def st3_def st2_def st1_def env_ok_def)
  have l4: "length (brickMeshes st4) = length new"
    using assms by (auto simp: st4_def st3_def st2_def st1_def env_ok_def lc_def)
  have m4: "materials_ok st4" by (simp add: st4_def st3_def)
  have c: "0 \<le> clamped" "clamped \<le> int (length new)"
    using assms by (auto simp: clamped_def st1_def env_ok_def lc_def)
  show ?thesis
  proof (cases "clamped = step st4")
    case True
    then have "setStep Y_up clamped st4 = st4" by (simp add: setStep_def)
    with True c b4 s4 p4 l4 m4 show ?thesis by (simp add: eq env_ok_def)
  next
    case False
    with c b4 show ?thesis by (simp add: eq setStep_def env_ok_def)
  qed
qed

lemma materials_ok_update:
  assumes "materials_ok st" "idx < length (brickMeshes st)"
    "material_emissive mesh = material_emissive (brickMeshes st ! idx)"
  shows "materials_ok (st\<lparr>brickMeshes := (brickMeshes st)[idx := mesh]\<rparr>)"
  using assms by (auto simp: materials_ok_iff nth_list_update)

lemma applySnap_emissive [simp]:
  "material_emissive (applySnapToMesh lay so mesh) = material_emissive mesh"
  by (simp add: applySnap_alt)

lemma env_ok_update:
  assumes "env_ok st" "idx < length (brickMeshes st)"
    "material_emissive mesh = material_emissive (brickMeshes st ! idx)"
  shows "env_ok (st\<lparr>brickMeshes := (brickMeshes st)[idx := mesh]\<rparr>)"
  using assms materials_ok_update [OF _ assms(2,3)] by (simp add: env_ok_def)

lemma env_ok_flags [simp]:
  "env_ok (st\<lparr>gizmoActive := g\<rparr>) = env_ok st"
  "env_ok (st\<lparr>orbit_enabled := b\<rparr>) = env_ok st"
  "env_ok (st\<lparr>opts := so\<rparr>) = env_ok st"
  by (simp_all add: env_ok_def materials_ok_def)

lemma commit_inv: "env_ok st \<Longrightarrow> env_ok (commitSelectedMeshToState Y_up st)"
  by (auto simp: commitSelectedMeshToState_def Let_def split: option.splits
      intro!: setBricks_inv env_ok_update)

lemma color_inv: "env_ok st \<Longrightarrow> env_ok (applySelectedColor Y_up rgb st)"
  by (auto simp: applySelectedColor_def Let_def split: option.splits intro!: setBricks_inv)

lemma gizmo_inv: "env_ok st \<Longrightarrow> env_ok (transformControls Y_up g st)"
  by (cases g)
    (auto simp: transformControls_def Let_def split: option.splits intro!: commit_inv env_ok_update)

lemma pointer_inv:
  "env_ok st \<Longrightarrow> valid_event st (PointerDown hit) \<Longrightarrow> env_ok (onPointerDown Y_up hit st)"
  by (cases hit) (auto simp: onPointerDown_def valid_event_def env_ok_def Let_def)

lemma escape_inv: "env_ok st \<Longrightarrow> env_ok (onEscape Y_up st)"
  by (simp add: onEscape_def env_ok_def)

lemma materials_ok_pending [simp]:
  "materials_ok (st\<lparr>pending_rebuild := p\<rparr>) = materials_ok st"
  by (simp add: materials_ok_def)

lemma completed_inv: "env_ok st \<Longrightarrow> env_ok (rebuild_completed st)"
  by (auto simp: rebuild_completed_def env_ok_def Let_def split: option.splits)

lemma handle_inv:
  assumes "env_ok st" "valid_event st ev"
  shows "env_ok (handle Y_up ev st)"
proof (cases ev)
  case (Slider v)
  with assms show ?thesis by (simp add: handle_def valid_event_def setStep_inv)
next
  case Prev
  with assms show ?thesis by (simp add: handle_def setStep_inv env_ok_def [of st])
next
  case Next
  with assms show ?thesis by (simp add: handle_def setStep_inv env_ok_def [of st])
next
  case ShowAll
  with assms show ?thesis by (simp add: handle_def setStep_inv env_ok_def [of st])
next
  case KeyEnter
  with assms show ?thesis by (simp add: handle_def setStep_inv env_ok_def [of st])
next
  case KeyBackspace
  with assms show ?thesis by (simp add: handle_def setStep_inv env_ok_def [of st])
next
  case KeyEscape
  with assms show ?thesis by (simp add: handle_def escape_inv)
next
  case (Reparse bs)
  with assms show ?thesis by (simp add: handle_def setBricks_inv)
next
  case (PointerDown hit)
  with assms show ?thesis by (simp add: handle_def pointer_inv)
next
  case (Gizmo g)
  with assms show ?thesis by (simp add: handle_def gizmo_inv)
next
  case (ColorInput rgb)
  with assms show ?thesis by (simp add: handle_def color_inv)
next
  case (SnapEnabledBox v)
  with assms show ?thesis by (simp add: handle_def)
next
  case (SnapStudBox v)
  with assms show ?thesis by (simp add: handle_def)
next
  case (SnapLevelsBox v)
  with assms show ?thesis by (simp add: handle_def)
next
  case (ControlKey v)
  with assms show ?thesis by (simp add: handle_def)
next
  case GeomParams
  with assms show ?thesis by (simp add: handle_def env_ok_def)
next
  case RebuildDone
  with assms show ?thesis by (simp add: handle_def completed_inv)
next
  case GeometryRejected
  with assms show ?thesis by (simp add: handle_def)
qed

lemma run_inv:
  "env_ok st \<Longrightarrow> events_valid Y_up evs st \<Longrightarrow> env_ok (run_events Y_up evs st)"
  by (induction evs arbitrary: st) (auto intro: handle_inv)

lemma mounted_inv: "env_ok (mounted Y_up bs)"
  by (simp add: mounted_def first_render_def env_ok_def)

lemma setBricks_step:
  assumes "env_ok st"
  shows "step (setBricks Y_up new st) = min (step st) (int (length new))"
  using assms by (auto simp: setBricks_def Let_def env_ok_def)

subsection \<open>First revision\<close>

text \<open>The cursor lies within the Part list.\<close>

definition cursor_ok :: "env \<Rightarrow> bool" where
  "cursor_ok st = (0 \<le> step st \<and> step st \<le> int (length (bricks st)))"

lemma highlight_fields [simp]:
  "bricks (setBrickHighlight i on st) = bricks st"
  "step (setBrickHighlight i on st) = step st"
  "selectedIndex (setBrickHighlight i on st) = selectedIndex st"
  "prevSelectedIndex (setBrickHighlight i on st) = prevSelectedIndex st"
  "opts (setBrickHighlight i on st) = opts st"
  "gizmoActive (setBrickHighlight i on st) = gizmoActive st"
  "pending_rebuild (setBrickHighlight i on st) = pending_rebuild st"
  "length (brickMeshes (setBrickHighlight i on st)) = length (brickMeshes st)"
  by (simp_all add: setBrickHighlight_def)

lemma clear_previous_fields [simp]:
  "bricks (clear_previous st) = bricks st"
  "step (clear_previous st) = step st"
  "selectedIndex (clear_previous st) = selectedIndex st"
  "prevSelectedIndex (clear_previous st) = prevSelectedIndex st"
  "opts (clear_previous st) = opts st"
  "gizmoActive (clear_previous st) = gizmoActive st"
  "pending_rebuild (clear_previous st) = pending_rebuild st"
  "length (brickMeshes (clear_previous st)) = length (brickMeshes st)"
  by (simp_all add: clear_previous_def split: option.splits)

lemma autoHighlight_fields [simp]:
  "bricks (autoHighlight st) = bricks st"
  "step (autoHighlight st) = step st"
  "selectedIndex (autoHighlight st) = selectedIndex st"
  "opts (autoHighlight st) = opts st"
  "gizmoActive (autoHighlight st) = gizmoActive st"
  "pending_rebuild (autoHighlight st) = pending_rebuild st"
  "length (brickMeshes (autoHighlight st)) = length (brickMeshes st)"
  by (simp_all add: autoHighlight_def Let_def)

lemma rebuild_first_fields [simp]:
  "bricks (rebuild st) = bricks st"
  "step (rebuild st) = step st"
  "selectedIndex (rebuild st) = None"
  "prevSelectedIndex (rebuild st) = None"
  "opts (rebuild st) = opts st"
  "gizmoActive (rebuild st) = gizmoActive st"
  "brickMeshes (rebuild st) = []"
  "pending_rebuild (rebuild st) = (if bricks st = [] then None else Some (step st))"
  by (simp_all add: rebuild_def Let_def)

lemma resumed_fields [simp]:
  "bricks (rebuild_resumed st) = bricks st"
  "step (rebuild_resumed st) = step st"
  "selectedIndex (rebuild_resumed st) = selectedIndex st"
  "prevSelectedIndex (rebuild_resumed st) = prevSelectedIndex st"
  "opts (rebuild_resumed st) = opts st"
  "gizmoActive (rebuild_resumed st) = gizmoActive st"
  "pending_rebuild (rebuild_resumed st) = None"
  by (simp_all add: rebuild_resumed_def Let_def split: option.splits)

lemma syncColors_fields [simp]:
  "bricks (syncColors st) = bricks st"
  "step (syncColors st) = step st"
  "selectedIndex (syncColors st) = selectedIndex st"
  "prevSelectedIndex (syncColors st) = prevSelectedIndex st"
  "opts (syncColors st) = opts st"
  "gizmoActive (syncColors st) = gizmoActive st"
  "pending_rebuild (syncColors st) = pending_rebuild st"
  "length (brickMeshes (syncColors st)) = length (brickMeshes st)"
  by (simp_all add: syncColors_def Let_def)

lemma setStep_first_fields [simp]:
  "bricks (setStep Z_up s st) = bricks st"
  "step (setStep Z_up s st) = s"
  "opts (setStep Z_up s st) = opts st"
  by (simp_all add: setStep_def)

lemma setBricks_first_fields [simp]:
  "bricks (setBricks Z_up new st) = new"
  "opts (setBricks Z_up new st) = opts st"
  by (simp_all add: setBricks_def Let_def)

lemma setBricks_first_step:
  assumes "cursor_ok st"
  shows "step (setBricks Z_up new st) = min (step st) (int (length new))"
  using assms by (auto simp: setBricks_def Let_def cursor_ok_def)

lemma setStep_first_inv:
  "0 \<le> s \<Longrightarrow> s \<le> int (length (bricks st)) \<Longrightarrow> cursor_ok (setStep Z_up s st)"
  by (simp add: cursor_ok_def)

lemma setBricks_first_inv: "cursor_ok st \<Longrightarrow> cursor_ok (setBricks Z_up new st)"
  using setBricks_first_step [of st new] by (simp add: cursor_ok_def)

lemma cursor_ok_flags [simp]:
  "cursor_ok (st\<lparr>brickMeshes := ms\<rparr>) = cursor_ok st"
  "cursor_ok (st\<lparr>gizmoActive := g\<rparr>) = cursor_ok st"
  "cursor_ok (st\<lparr>orbit_enabled := b\<rparr>) = cursor_ok st"
  "cursor_ok (st\<lparr>opts := so\<rparr>) = cursor_ok st"
  "cursor_ok (st\<lparr>pending_rebuild := p\<rparr>) = cursor_ok st"
  by (simp_all add: cursor_ok_def)

lemma commit_first_inv: "cursor_ok st \<Longrightarrow> cursor_ok (commitSelectedMeshToState Z_up st)"
  by (auto simp: commitSelectedMeshToState_def Let_def
      split: option.splits intro!: setBricks_first_inv)

lemma color_first_inv: "cursor_ok st \<Longrightarrow> cursor_ok (applySelectedColor Z_up rgb st)"
  by (auto simp: applySelectedColor_def Let_def split: option.splits intro!: setBricks_first_inv)

lemma gizmo_first_inv: "cursor_ok st \<Longrightarrow> cursor_ok (transformControls Z_up g st)"
  by (cases g)
    (auto simp: transformControls_def Let_def
      split: option.splits intro!: commit_first_inv)

lemma pointer_first_inv: "cursor_ok st \<Longrightarrow> cursor_ok (onPointerDown Z_up hit st)"
  by (cases hit) (auto simp: onPointerDown_def Let_def cursor_ok_def)

lemma escape_first_inv: "cursor_ok st \<Longrightarrow> cursor_ok (onEscape Z_up st)"
  by (simp add: onEscape_def cursor_ok_def)

lemma handle_first_inv:
  assumes "cursor_ok st" "valid_event st ev"
  shows "cursor_ok (handle Z_up ev st)"
proof (cases ev)
  case (Slider v)
  with assms show ?thesis by (simp add: handle_def valid_event_def setStep_first_inv)
next
  case Prev
  with assms show ?thesis by (simp add: handle_def setStep_first_inv cursor_ok_def [of st])
next
  case Next
  with assms show ?thesis by (simp add: handle_def setStep_first_inv cursor_ok_def [of st])
next
  case ShowAll
  with assms show ?thesis by (simp add: handle_def setStep_first_inv cursor_ok_def [of st])
next
  case KeyEnter
  with assms show ?thesis by (simp add: handle_def)
next
  case KeyBackspace
  with assms show ?thesis by (simp add: handle_def)
next
  case KeyEscape
  with assms show ?thesis by (simp add: handle_def escape_first_inv)
next
  case (Reparse bs)
  with assms show ?thesis by (simp add: handle_def setBricks_first_inv)
next
  case (PointerDown hit)
  with assms show ?thesis by (simp add: handle_def pointer_first_inv)
next
  case (Gizmo g)
  with assms show ?thesis by (simp add: handle_def gizmo_first_inv)
next
  case (ColorInput rgb)
  with assms show ?thesis by (simp add: handle_def color_first_inv)
next
  case (SnapEnabledBox v)
  with assms show ?thesis by (simp add: handle_def cursor_ok_def)
next
  case (SnapStudBox v)
  with assms show ?thesis by (simp add: handle_def cursor_ok_def)
next
  case (SnapLevelsBox v)
  with assms show ?thesis by (simp add: handle_def cursor_ok_def)
next
  case (ControlKey v)
  with assms show ?thesis by (simp add: handle_def cursor_ok_def)
next
  case GeomParams
  with assms show ?thesis by (simp add: handle_def cursor_ok_def)
next
  case RebuildDone
  with assms show ?thesis by (simp add: handle_def cursor_ok_def)
next
  case GeometryRejected
  with assms show ?thesis by (simp add: handle_def cursor_ok_def)
qed

lemma run_first_inv:
  "cursor_ok st \<Longrightarrow> events_valid Z_up evs st \<Longrightarrow> cursor_ok (run_events Z_up evs st)"
  by (induction evs arbitrary: st) (auto intro: handle_first_inv)

lemma mounted_first_inv: "cursor_ok (mounted Z_up bs)"
  by (simp add: mounted_def first_render_def cursor_ok_def)

subsection \<open>The cursor in both revisions\<close>

lemma run_cursor:
  assumes "events_valid lay evs (mounted lay bs)"
  shows "cursor_ok (run_events lay evs (mounted lay bs))"
proof (cases lay)
  case Z_up
  with assms show ?thesis using run_first_inv [OF mounted_first_inv] by simp
next
  case Y_up
  with assms have "env_ok (run_events lay evs (mounted lay bs))"
    using run_inv [OF mounted_inv] by simp
  then show ?thesis by (simp add: env_ok_def cursor_ok_def)
qed

lemma cursor_steps:
  assumes "events_valid lay evs (mounted lay bs)" and "st = run_events lay evs (mounted lay bs)"
  shows "step (handle lay Next st) = min (int (length (bricks st))) (step st + 1)"
    "step (handle lay Prev st) = max 0 (step st - 1)"
    "step (handle lay (Reparse new) st) = min (step st) (int (length new))"
proof -
  show "step (handle lay Next st) = min (int (length (bricks st))) (step st + 1)"
    by (cases lay) (simp_all add: handle_def)
  show "step (handle lay Prev st) = max 0 (step st - 1)"
    by (cases lay) (simp_all add: handle_def)
  show "step (handle lay (Reparse new) st) = min (step st) (int (length new))"
  proof (cases lay)
    case Z_up
    with assms have "cursor_ok st" using run_first_inv [OF mounted_first_inv] by simp
    with Z_up show ?thesis by (simp add: handle_def setBricks_first_step)
  next
    case Y_up
    with assms have "env_ok st" using run_inv [OF mounted_inv] by simp
    with Y_up show ?thesis by (simp add: handle_def setBricks_step)
  qed
qed

definition demo_brick :: "string \<Rightarrow> string \<Rightarrow> brick" where
  "demo_brick i k =
     \<lparr>brick_id = i, kind = k, xMm = 0, yMm = 0, zMm = 0, rotX = 0, rotY = 0, rotZ = 0,
      color = (4 / 5, 1 / 10, 1 / 10)\<rparr>"

definition five_bricks :: "brick list" where
  "five_bricks = [demo_brick ''a'' ''2x4'', demo_brick ''b'' ''2x2'', demo_brick ''c'' ''1x2'',
                  demo_brick ''d'' ''1x1'', demo_brick ''e'' ''2x2'']"

definition three_bricks :: "brick list" where
  "three_bricks = [demo_brick ''f'' ''2x4'', demo_brick ''g'' ''2x2'', demo_brick ''h'' ''1x2'']"

lemma mounted_fields [simp]:
  "bricks (mounted lay bs) = bs"
  "step (mounted lay bs) = 0"
  "selectedIndex (mounted lay bs) = None"
  by (cases lay; simp add: mounted_def first_render_def)+

text \<open>
  C7. After any sequence of events the step cursor lies between 0 and the number of
  Parts. Advancing and retreating clamp at the bounds, and replacing the Part list
  clamps the cursor down to the new count: a cursor of 5 with 3 Parts remaining
  becomes 3.
\<close>

theorem step_cursor_in_range:
  assumes "events_valid lay evs (mounted lay bs)" and "st = run_events lay evs (mounted lay bs)"
  shows "0 \<le> step st \<and> step st \<le> int (length (bricks st)) \<and>
         step (handle lay Next st) = min (int (length (bricks st))) (step st + 1) \<and>
         step (handle lay Prev st) = max 0 (step st - 1) \<and>
         step (handle lay (Reparse new) st) = min (step st) (int (length new))"
  using run_cursor [OF assms(1)] cursor_steps [OF assms] assms(2)
  by (simp add: cursor_ok_def)

theorem step_cursor_in_range_witness:
  "events_valid Y_up [ShowAll, Slider 4, Next] (mounted Y_up five_bricks) \<and>
   step (run_events Y_up [ShowAll, Slider 4, Next] (mounted Y_up five_bricks)) = 5 \<and>
   step (handle Y_up (Reparse three_bricks)
          (run_events Y_up [ShowAll, Slider 4, Next] (mounted Y_up five_bricks))) = 3"
proof -
  have v: "events_valid Y_up [ShowAll, Slider 4, Next] (mounted Y_up five_bricks)"
    by (simp add: valid_event_def handle_def five_bricks_def)
  have s: "step (run_events Y_up [ShowAll, Slider 4, Next] (mounted Y_up five_bricks)) = 5"
    by (simp add: handle_def five_bricks_def)
  from step_cursor_in_range [OF v refl, of three_bricks] s v show ?thesis
    by (simp add: three_bricks_def)
qed

section \<open>The frame of a commit\<close>

text \<open>A drag in progress: the first of two Parts is selected and its mesh has been moved.\<close>

definition two_bricks :: "brick list" where
  "two_bricks = [demo_brick ''p'' ''2x4'', demo_brick ''q'' ''2x2'']"

definition dragged_mesh :: object3D where
  "dragged_mesh =
     \<lparr>position_x = 13, position_y = 47 / 5, position_z = 3,
      rotation_x = 0, rotation_y = 1, rotation_z = 0,
      visible = True, material_emissive = NoEmissive, material_blend = True\<rparr>"

definition resting_mesh :: object3D where
  "resting_mesh =
     \<lparr>position_x = 0, position_y = 0, position_z = 0,
      rotation_x = 0, rotation_y = 0, rotation_z = 0,
      visible = True, material_emissive = NoEmissive, material_blend = False\<rparr>"

definition dragging_state :: env where
  "dragging_state =
     \<lparr>bricks = two_bricks, step = 2, prevStep = 0, selectedIndex = Some 0,
      autoHighlightIdx = None, prevSelectedIndex = Some 0,
      brickMeshes = [dragged_mesh, resting_mesh],
      opts = opts_all_on, gizmoActive = True, orbit_enabled = False,
      pending_rebuild = None\<rparr>"

lemma setBricks_bricks: "bricks (setBricks lay new st) = new"
  by (cases lay) simp_all

lemma commit_bricks:
  "bricks (commitSelectedMeshToState lay st) =
     (case selectedIndex st of
        None \<Rightarrow> bricks st
      | Some idx \<Rightarrow>
          if idx < length (brickMeshes st) \<and> idx < length (bricks st)
          then (bricks st)[idx := (bricks st ! idx)
                 \<lparr>xMm := position_x (applySnapToMesh lay (listener_options st) (brickMeshes st ! idx)),
                  yMm := position_y (applySnapToMesh lay (listener_options st) (brickMeshes st ! idx)),
                  zMm := position_z (applySnapToMesh lay (listener_options st) (brickMeshes st ! idx)),
                  rotX := radToDeg (rotation_x
                    (applySnapToMesh lay (listener_options st) (brickMeshes st ! idx))),
                  rotY := radToDeg (rotation_y
                    (applySnapToMesh lay (listener_options st) (brickMeshes st ! idx))),
                  rotZ := radToDeg (rotation_z
                    (applySnapToMesh lay (listener_options st) (brickMeshes st ! idx)))\<rparr>]
          else bricks st)"
  by (simp add: commitSelectedMeshToState_def Let_def setBricks_bricks listener_options_def
      split: option.splits)

lemma drag_bricks:
  "bricks (transformControls lay MouseDown st) = bricks st"
  "bricks (transformControls lay (DraggingChanged True) st) = bricks st"
  "bricks (transformControls lay (ObjectChange px py pz rx ry rz) st) = bricks st"
  by (simp_all add: transformControls_def split: option.splits)

text \<open>
  C9. A commit changes no Part but the selected one, and of that Part it keeps the
  identifier, the kind and the colour: only position and rotation are written. The
  notifications of a drag in progress (pointer down on the handle, dragging turned on,
  the handle moving the mesh) leave the Part list as it is.
\<close>

theorem commit_frame:
  assumes "st' = commitSelectedMeshToState lay st"
  shows "length (bricks st') = length (bricks st) \<and>
         (\<forall>i < length (bricks st).
            brick_id (bricks st' ! i) = brick_id (bricks st ! i) \<and>
            kind (bricks st' ! i) = kind (bricks st ! i) \<and>
            color (bricks st' ! i) = color (bricks st ! i) \<and>
            (selectedIndex st \<noteq> Some i \<longrightarrow> bricks st' ! i = bricks st ! i)) \<and>
         bricks (transformControls lay MouseDown st) = bricks st \<and>
         bricks (transformControls lay (DraggingChanged True) st) = bricks st \<and>
         bricks (transformControls lay (ObjectChange px py pz rx ry rz) st) = bricks st"
  unfolding assms
  by (auto simp: commit_bricks drag_bricks nth_list_update split: option.splits)

theorem commit_frame_witness:
  "selectedIndex dragging_state \<noteq> Some 1 \<and>
   bricks (commitSelectedMeshToState Z_up dragging_state) ! 1 = bricks dragging_state ! 1 \<and>
   kind (bricks (commitSelectedMeshToState Z_up dragging_state) ! 0) = ''2x4'' \<and>
   xMm (bricks (commitSelectedMeshToState Z_up dragging_state) ! 0) = 16 \<and>
   xMm (bricks dragging_state ! 0) = 0"
proof -
  have x: "xMm (bricks (commitSelectedMeshToState Z_up dragging_state) ! 0) = 16"
    by (simp add: commit_bricks dragging_state_def two_bricks_def dragged_mesh_def applySnap_alt
        listener_options_def opts_all_on_def stepH_of_def STUD_PITCH_def snap_thirteen)
  from commit_frame [OF refl, of Z_up dragging_state] x show ?thesis
    by (simp add: dragging_state_def two_bricks_def demo_brick_def)
qed

section \<open>Highlight state\<close>

text \<open>
  The rules below are those of the second revision, which keeps the auto-highlight index
  apart from the manual selection. Its invariant: a pending rebuild has captured the
  present visible count; without a manual selection the auto-highlight is the last
  revealed Part, or still cleared while a rebuild is pending.
\<close>

definition highlight_ok :: "env \<Rightarrow> bool" where
  "highlight_ok st =
     ((pending_rebuild st = None \<or>
       pending_rebuild st = Some (visibleCount_of (step st) (bricks st))) \<and>
      (selectedIndex st = None \<longrightarrow>
         autoHighlightIdx st = last_revealed (visibleCount_of (step st) (bricks st)) \<or>
         (pending_rebuild st \<noteq> None \<and> autoHighlightIdx st = None)))"

lemma visibleCount_length:
  "length bs = length bs' \<Longrightarrow> visibleCount_of s bs = visibleCount_of s bs'"
  by (simp add: visibleCount_of_def)

lemma sync_orbit [simp]: "orbit_enabled (syncTransforms st) = orbit_enabled st"
  by (simp add: syncTransforms_def Let_def refreshAllMaterials_def)

lemma stepTransition_auto:
  "autoHighlightIdx (stepTransition st) =
     (if step st > prevStep st \<and> selectedIndex st = None
      then last_revealed (visibleCount_of (step st) (bricks st))
      else autoHighlightIdx st)"
  by (simp add: stepTransition_def Let_def)



lemma highlight_ok_cong:
  assumes "pending_rebuild st' = pending_rebuild st" "step st' = step st"
    "length (bricks st') = length (bricks st)" "selectedIndex st' = selectedIndex st"
    "autoHighlightIdx st' = autoHighlightIdx st"
  shows "highlight_ok st' = highlight_ok st"
  using assms visibleCount_length [OF assms(3), of "step st"] by (simp add: highlight_ok_def)

lemma rebuild_highlight [simp]: "highlight_ok (rebuildProgressive st)"
  by (simp add: highlight_ok_def)

lemma sync_highlight [simp]: "highlight_ok (syncTransforms st) = highlight_ok st"
  by (rule highlight_ok_cong) simp_all



lemma highlight_ok_flags [simp]:
  "highlight_ok (st\<lparr>gizmoActive := g\<rparr>) = highlight_ok st"
  "highlight_ok (st\<lparr>orbit_enabled := b\<rparr>) = highlight_ok st"
  "highlight_ok (st\<lparr>opts := so\<rparr>) = highlight_ok st"
  "highlight_ok (st\<lparr>brickMeshes := ms\<rparr>) = highlight_ok st"
  by (simp_all add: highlight_ok_def)












text \<open>Fields of the state after single handlers, for evaluating concrete runs.\<close>

lemma refresh_nth_visible:
  "i < length (brickMeshes st) \<Longrightarrow>
     visible (brickMeshes (refreshAllMaterials st) ! i) = visible (brickMeshes st ! i)"
  by (simp add: refresh_meshes nth_enumerate_eq)

lemma setAuto_nth_visible:
  "i < length (brickMeshes st) \<Longrightarrow>
     visible (brickMeshes (setAutoHighlight idx st) ! i) = visible (brickMeshes st ! i)"
  by (simp add: setAutoHighlight_def refresh_nth_visible)

lemma rebuild_nth_visible:
  "i < length (bricks st) \<Longrightarrow>
     visible (brickMeshes (rebuildProgressive st) ! i)
       = (int i < visibleCount_of (step st) (bricks st))"
  by (simp add: rebuildProgressive_def Let_def refresh_nth_visible nth_enumerate_eq
      placeholder_mesh_def)

lemma sync_nth_visible:
  "i < length (brickMeshes st) \<Longrightarrow> i < length (bricks st) \<Longrightarrow>
     visible (brickMeshes (syncTransforms st) ! i)
       = (int i < visibleCount_of (step st) (bricks st))"
  by (auto simp: syncTransforms_def Let_def refresh_nth_visible nth_enumerate_eq sync_mesh_def)

lemma stepTransition_nth_visible:
  "i < length (brickMeshes st) \<Longrightarrow>
     visible (brickMeshes (stepTransition st) ! i) = visible (brickMeshes st ! i)"
  by (simp add: stepTransition_def Let_def setAuto_nth_visible)

lemma setStep_nth_visible:
  "s \<noteq> step st \<Longrightarrow> i < length (bricks st) \<Longrightarrow>
     visible (brickMeshes (setStep Y_up s st) ! i) = (int i < visibleCount_of s (bricks st))"
  by (simp add: setStep_def stepTransition_nth_visible sync_nth_visible)

lemma setStep_more_fields:
  "gizmoActive (setStep Y_up s st) = gizmoActive st"
  "prevStep (setStep Y_up s st) = (if s = step st then prevStep st else s)"
  "length (brickMeshes (setStep Y_up s st)) = (if s = step st then length (brickMeshes st) else length (bricks st))"
  by (simp_all add: setStep_def)

lemma completed_fields:
  "bricks (rebuild_completed st) = bricks st"
  "step (rebuild_completed st) = step st"
  "prevStep (rebuild_completed st) = prevStep st"
  "selectedIndex (rebuild_completed st) = selectedIndex st"
  "gizmoActive (rebuild_completed st) = gizmoActive st"
  "pending_rebuild (rebuild_completed st) = None"
  "length (brickMeshes (rebuild_completed st)) = length (brickMeshes st)"
  "autoHighlightIdx (rebuild_completed st) =
     (case pending_rebuild st of
        None \<Rightarrow> autoHighlightIdx st
      | Some visibleCount \<Rightarrow>
          if selectedIndex st = None then last_revealed visibleCount else autoHighlightIdx st)"
  by (auto simp: rebuild_completed_def Let_def split: option.splits)

lemma completed_nth_visible:
  "i < length (brickMeshes st) \<Longrightarrow>
     visible (brickMeshes (rebuild_completed st) ! i) = visible (brickMeshes st ! i)"
  by (simp add: rebuild_completed_def Let_def setAuto_nth_visible split: option.splits)

lemma mounted_more_fields:
  "prevStep (mounted Y_up bs) = 0"
  "gizmoActive (mounted Y_up bs) = False"
  "autoHighlightIdx (mounted Y_up bs) = None"
  "pending_rebuild (mounted Y_up bs) = Some (visibleCount_of 0 bs)"
  "length (brickMeshes (mounted Y_up bs)) = length bs"
  by (simp_all add: mounted_def first_render_def stepTransition_auto)

lemma pointer_hit_fields:
  assumes "\<not> gizmoActive st" "idx < length (brickMeshes st)" "idx < length (bricks st)"
  shows "selectedIndex (onPointerDown Y_up (Some idx) st) = Some idx"
    "step (onPointerDown Y_up (Some idx) st) = step st"
    "bricks (onPointerDown Y_up (Some idx) st) = bricks st"
    "length (brickMeshes (onPointerDown Y_up (Some idx) st)) = length (brickMeshes st)"
  using assms by (auto simp: onPointerDown_def Let_def)





lemma run_events_append:
  "run_events lay (evs @ evs') st = run_events lay evs' (run_events lay evs st)"
  by (induction evs arbitrary: st) simp_all













subsection \<open>The first revision\<close>

text \<open>
  In the first revision the auto-highlight effect runs before the rebuild that the same
  cursor change starts. The rebuild drops the meshes and clears the index, and the meshes
  it creates on resuming carry the Parts' own colours: after a change of the cursor no
  mesh is highlighted, whatever the direction of the change.
\<close>

lemma syncColors_empty: "brickMeshes st = [] \<Longrightarrow> syncColors st = st"
  by (simp add: syncColors_def)

lemma cursor_change_first:
  assumes "s \<noteq> step st"
  shows "brickMeshes (setStep Z_up s st) = []"
    "selectedIndex (setStep Z_up s st) = None"
    "prevSelectedIndex (setStep Z_up s st) = None"
    "prevSelectedIndex (rebuild_resumed (setStep Z_up s st)) = None"
    "\<forall>mesh \<in> set (brickMeshes (rebuild_resumed (setStep Z_up s st))). \<not> material_blend mesh"
proof -
  have eq: "setStep Z_up s st = rebuild (autoHighlight (st\<lparr>step := s\<rparr>))"
    using assms by (simp add: setStep_def syncColors_empty)
  show "brickMeshes (setStep Z_up s st) = []"
    "selectedIndex (setStep Z_up s st) = None"
    "prevSelectedIndex (setStep Z_up s st) = None"
    "prevSelectedIndex (rebuild_resumed (setStep Z_up s st)) = None"
    by (simp_all add: eq)
  show "\<forall>mesh \<in> set (brickMeshes (rebuild_resumed (setStep Z_up s st))). \<not> material_blend mesh"
  proof (cases "bricks st = []")
    case True
    then show ?thesis by (simp add: eq rebuild_resumed_def)
  next
    case False
    then have "pending_rebuild (setStep Z_up s st) = Some s" by (simp add: eq)
    then show ?thesis
      by (auto simp: in_set_conv_nth rebuild_resumed_def Let_def nth_enumerate_eq built_mesh_def)
  qed
qed

section \<open>The snap switches at a release\<close>

text \<open>
  A release commits: both notifications of a drag end call the commit function. The
  switch events change only the rendered switch state, which that function does not
  read.
\<close>

lemma release_commits:
  "transformControls lay MouseUp st =
     commitSelectedMeshToState lay (st\<lparr>gizmoActive := False, orbit_enabled := True\<rparr>)"
  "transformControls lay (DraggingChanged False) st =
     commitSelectedMeshToState lay (st\<lparr>orbit_enabled := True\<rparr>)"
  by (simp_all add: transformControls_def)

lemma listener_options_switches [simp]:
  "listener_options (st\<lparr>opts := (opts st)\<lparr>snapEnabled := v\<rparr>\<rparr>) = listener_options st"
  "listener_options (st\<lparr>opts := (opts st)\<lparr>snapStud := v\<rparr>\<rparr>) = listener_options st"
  "listener_options (st\<lparr>opts := (opts st)\<lparr>snapLevels := v\<rparr>\<rparr>) = listener_options st"
  by (simp_all add: listener_options_def)

lemma release_after_drag:
  assumes "selectedIndex st = Some idx" "idx < length (brickMeshes st)"
    "idx < length (bricks st)" "\<not> ctrl (opts st)"
  shows "xMm (bricks (handle lay (Gizmo MouseUp)
            (handle lay (Gizmo (ObjectChange 13 py pz rx ry rz)) st)) ! idx) = 16"
  using assms
  by (simp add: handle_def release_commits commit_bricks transformControls_def applySnap_alt
      listener_options_def stepH_of_def STUD_PITCH_def snap_thirteen)

text \<open>
  A run of either revision: all Parts are shown, the rebuild completes, the first Part
  is picked, snapping to studs is switched off, and the handle drags the mesh to
  \<open>x = 13\<close> and is released with the Control key up.
\<close>

definition picking :: "event list" where
  "picking = [ShowAll, RebuildDone, PointerDown (Some 0)]"

definition unsnapped_drag :: "event list" where
  "unsnapped_drag =
     picking @ [SnapStudBox False, Gizmo MouseDown, Gizmo (ObjectChange 13 0 0 0 0 0),
                Gizmo MouseUp]"

lemma two_bricks_length: "length two_bricks = 2"
  by (simp add: two_bricks_def)

lemma events_valid_append:
  "events_valid lay (evs @ evs') st
     = (events_valid lay evs st \<and> events_valid lay evs' (run_events lay evs st))"
  by (induction evs arbitrary: st) simp_all

lemma completed_opts [simp]: "opts (rebuild_completed st) = opts st"
  by (simp add: rebuild_completed_def Let_def split: option.splits)

lemma mounted_opts [simp]: "opts (mounted lay bs) = opts_all_on"
  by (cases lay) (simp_all add: mounted_def first_render_def opts_all_on_def)

lemma pointer_opts [simp]: "opts (onPointerDown lay hit st) = opts st"
  by (cases lay; cases hit) (simp_all add: onPointerDown_def Let_def)

lemma resumed_meshes:
  "pending_rebuild st = Some s \<Longrightarrow>
     length (brickMeshes (rebuild_resumed st)) = length (bricks st) \<and>
     (\<forall>i < length (bricks st).
        visible (brickMeshes (rebuild_resumed st) ! i) = (int i < visibleCount_of s (bricks st)) \<and>
        \<not> material_blend (brickMeshes (rebuild_resumed st) ! i))"
  by (simp add: rebuild_resumed_def Let_def nth_enumerate_eq built_mesh_def)

lemma picked_second:
  "events_valid Y_up picking (mounted Y_up two_bricks)"
  "selectedIndex (run_events Y_up picking (mounted Y_up two_bricks)) = Some 0"
  "length (brickMeshes (run_events Y_up picking (mounted Y_up two_bricks))) = 2"
  "bricks (run_events Y_up picking (mounted Y_up two_bricks)) = two_bricks"
  "opts (run_events Y_up picking (mounted Y_up two_bricks)) = opts_all_on"
proof -
  define s1 where "s1 = handle Y_up ShowAll (mounted Y_up two_bricks)"
  define s2 where "s2 = handle Y_up RebuildDone s1"
  have f1: "bricks s1 = two_bricks" "step s1 = 2" "gizmoActive s1 = False"
    "length (brickMeshes s1) = 2" "visible (brickMeshes s1 ! 0)" "opts s1 = opts_all_on"
    unfolding s1_def
    by (simp_all add: handle_def two_bricks_length setStep_more_fields mounted_more_fields
        setStep_nth_visible visibleCount_of_def)
  have f2: "bricks s2 = two_bricks" "gizmoActive s2 = False"
    "length (brickMeshes s2) = 2" "visible (brickMeshes s2 ! 0)" "opts s2 = opts_all_on"
    unfolding s2_def using f1
    by (simp_all add: handle_def completed_fields completed_nth_visible)
  have run: "run_events Y_up picking (mounted Y_up two_bricks) = handle Y_up (PointerDown (Some 0)) s2"
    by (simp add: picking_def s2_def s1_def)
  show "events_valid Y_up picking (mounted Y_up two_bricks)"
    using f2 by (simp add: picking_def valid_event_def two_bricks_length flip: s1_def s2_def)
  show "selectedIndex (run_events Y_up picking (mounted Y_up two_bricks)) = Some 0"
    "length (brickMeshes (run_events Y_up picking (mounted Y_up two_bricks))) = 2"
    "bricks (run_events Y_up picking (mounted Y_up two_bricks)) = two_bricks"
    "opts (run_events Y_up picking (mounted Y_up two_bricks)) = opts_all_on"
    unfolding run using f2
    by (simp_all add: handle_def pointer_hit_fields two_bricks_length)
qed

lemma picked_first:
  "events_valid Z_up picking (mounted Z_up two_bricks)"
  "selectedIndex (run_events Z_up picking (mounted Z_up two_bricks)) = Some 0"
  "length (brickMeshes (run_events Z_up picking (mounted Z_up two_bricks))) = 2"
  "bricks (run_events Z_up picking (mounted Z_up two_bricks)) = two_bricks"
  "opts (run_events Z_up picking (mounted Z_up two_bricks)) = opts_all_on"
proof -
  define s1 where "s1 = handle Z_up ShowAll (mounted Z_up two_bricks)"
  define s2 where "s2 = handle Z_up RebuildDone s1"
  have ne: "two_bricks \<noteq> []" by (simp add: two_bricks_def)
  have f1: "bricks s1 = two_bricks" "gizmoActive s1 = False"
    "pending_rebuild s1 = Some 2" "opts s1 = opts_all_on"
    unfolding s1_def using ne
    by (simp_all add: handle_def two_bricks_length setStep_def mounted_def first_render_def
        opts_all_on_def)
  have f2: "bricks s2 = two_bricks" "gizmoActive s2 = False"
    "length (brickMeshes s2) = 2" "visible (brickMeshes s2 ! 0)" "opts s2 = opts_all_on"
    unfolding s2_def using f1 resumed_meshes [OF f1(3)]
    by (simp_all add: handle_def two_bricks_length visibleCount_of_def)
  have run: "run_events Z_up picking (mounted Z_up two_bricks) = handle Z_up (PointerDown (Some 0)) s2"
    by (simp add: picking_def s2_def s1_def)
  show "events_valid Z_up picking (mounted Z_up two_bricks)"
    using f2 by (simp add: picking_def valid_event_def two_bricks_length flip: s1_def s2_def)
  show "selectedIndex (run_events Z_up picking (mounted Z_up two_bricks)) = Some 0"
    "length (brickMeshes (run_events Z_up picking (mounted Z_up two_bricks))) = 2"
    "bricks (run_events Z_up picking (mounted Z_up two_bricks)) = two_bricks"
    "opts (run_events Z_up picking (mounted Z_up two_bricks)) = opts_all_on"
    unfolding run using f2
    by (auto simp: handle_def onPointerDown_def Let_def two_bricks_length)
qed

lemma picked:
  "events_valid lay picking (mounted lay two_bricks)"
  "selectedIndex (run_events lay picking (mounted lay two_bricks)) = Some 0"
  "length (brickMeshes (run_events lay picking (mounted lay two_bricks))) = 2"
  "bricks (run_events lay picking (mounted lay two_bricks)) = two_bricks"
  "opts (run_events lay picking (mounted lay two_bricks)) = opts_all_on"
  by (cases lay; simp add: picked_first picked_second)+

text \<open>
  C4. With snapping to studs switched off the release still rounds the horizontal
  position to the stud pitch: the mesh dragged to \<open>x = 13\<close> is committed at 16, where
  a pitch of 1 keeps 13. The run is one the component accepts in either revision.
\<close>

theorem release_ignores_snap_switch:
  "events_valid lay unsnapped_drag (mounted lay two_bricks) \<and>
   snapStud (opts (run_events lay unsnapped_drag (mounted lay two_bricks))) = False \<and>
   ctrl (opts (run_events lay unsnapped_drag (mounted lay two_bricks))) = False \<and>
   xMm (bricks (run_events lay unsnapped_drag (mounted lay two_bricks)) ! 0) = 16 \<and>
   snapValue 13 1 = 13"
proof -
  define p where "p = run_events lay picking (mounted lay two_bricks)"
  define d where "d = handle lay (Gizmo MouseDown) (handle lay (SnapStudBox False) p)"
  have fp: "selectedIndex p = Some 0" "length (brickMeshes p) = 2" "bricks p = two_bricks"
    "opts p = opts_all_on"
    unfolding p_def by (simp_all add: picked)
  have fd: "selectedIndex d = Some 0" "length (brickMeshes d) = 2" "bricks d = two_bricks"
    "\<not> ctrl (opts d)" "\<not> snapStud (opts d)"
    unfolding d_def using fp
    by (simp_all add: handle_def transformControls_def opts_all_on_def)
  have run: "run_events lay unsnapped_drag (mounted lay two_bricks)
      = handle lay (Gizmo MouseUp) (handle lay (Gizmo (ObjectChange 13 0 0 0 0 0)) d)"
    by (simp add: unsnapped_drag_def run_events_append d_def p_def)
  have x: "xMm (bricks (run_events lay unsnapped_drag (mounted lay two_bricks)) ! 0) = 16"
    unfolding run using fd by (intro release_after_drag) (simp_all add: two_bricks_length)
  have o: "opts (handle lay (Gizmo MouseUp) (handle lay (Gizmo (ObjectChange 13 0 0 0 0 0)) d))
      = opts d"
    by (cases lay)
      (simp_all add: handle_def transformControls_def commitSelectedMeshToState_def Let_def
        split: option.splits)
  have v: "events_valid lay unsnapped_drag (mounted lay two_bricks)"
    by (simp add: unsnapped_drag_def events_valid_append picked valid_event_def)
  have one: "snapValue 13 1 = 13"
  proof -
    have q: "double 13 = 13"
      by (subst double_at [where e = 3]) (simp_all add: round_ties_even_def Let_def)
    have r: "Math_round 13 = 13"
      by (simp add: Math_round_def)
    show ?thesis by (simp add: snapValue_def q r)
  qed
  from v x one fd(4,5) show ?thesis by (simp add: run o)
qed

section \<open>Colour conversion\<close>

text \<open>
  Strings are lists of 8-bit characters: the model reads a JavaScript string whose code
  units lie below 256. \<open>js_space\<close> is the white space of the language in that range.
\<close>

definition js_space :: "char \<Rightarrow> bool" where
  "js_space c = (of_char c \<in> {9, 10, 11, 12, 13, 32, 160 :: nat})"

text \<open>\<^verbatim>\<open>Number.prototype.toString(16)\<close> on a natural number, and \<^verbatim>\<open>padStart\<close>.\<close>

definition hex_digit :: "nat \<Rightarrow> char" where
  "hex_digit d = ''0123456789abcdef'' ! d"

fun toString16 :: "nat \<Rightarrow> string" where
  "toString16 n = (if n < 16 then [hex_digit n] else toString16 (n div 16) @ [hex_digit (n mod 16)])"

declare toString16.simps [simp del]

definition padStart :: "nat \<Rightarrow> char \<Rightarrow> string \<Rightarrow> string" where
  "padStart targetLength c s = replicate (targetLength - length s) c @ s"

definition channel_to_hex :: "real \<Rightarrow> string" where
  "channel_to_hex v =
     padStart 2 (CHR ''0'') (toString16 (nat \<lfloor>max 0 (min 255 (Math_round (v * 255)))\<rfloor>))"

definition rgb01ToHex :: "real \<times> real \<times> real \<Rightarrow> string" where
  "rgb01ToHex rgb =
     (case rgb of (r, g, b) \<Rightarrow> ''#'' @ channel_to_hex r @ channel_to_hex g @ channel_to_hex b)"

text \<open>
  \<^verbatim>\<open>parseInt(s, 16)\<close>: leading white space, a sign and a \<^verbatim>\<open>0x\<close> prefix are skipped, then
  the longest run of hexadecimal digits is read; no digit gives \<open>NaN\<close>, here \<open>None\<close>.
  The shift and mask operators first convert to a signed 32-bit integer (\<open>NaN\<close> to 0);
  on such integers a right shift is a floor division and masking with 255 is the
  remainder modulo 256.
\<close>

definition hex_value :: "char \<Rightarrow> nat option" where
  "hex_value c =
     (let n = (of_char c :: nat) in
      if 48 \<le> n \<and> n \<le> 57 then Some (n - 48)
      else if 97 \<le> n \<and> n \<le> 102 then Some (n - 87)
      else if 65 \<le> n \<and> n \<le> 70 then Some (n - 55)
      else None)"

definition parseInt16 :: "string \<Rightarrow> int option" where
  "parseInt16 s =
     (let t = dropWhile js_space s;
          (sign, u) = (case t of
                         c # rest \<Rightarrow> if c = CHR ''-'' then (- 1, rest)
                                    else if c = CHR ''+'' then (1, rest) else (1, t)
                       | [] \<Rightarrow> (1 :: int, t));
          v = (case u of
                 a # b # rest \<Rightarrow> if a = CHR ''0'' \<and> (b = CHR ''x'' \<or> b = CHR ''X'') then rest else u
               | _ \<Rightarrow> u);
          digits = takeWhile (\<lambda>c. hex_value c \<noteq> None) v
      in if digits = [] then None
         else Some (sign * int (foldl (\<lambda>acc c. 16 * acc + the (hex_value c)) 0 digits)))"

definition toInt32 :: "int option \<Rightarrow> int" where
  "toInt32 n = (case n of None \<Rightarrow> 0 | Some v \<Rightarrow> (v + 2 ^ 31) mod 2 ^ 32 - 2 ^ 31)"

definition shift_right :: "int \<Rightarrow> nat \<Rightarrow> int" where
  "shift_right v k = v div 2 ^ k"

definition and_255 :: "int \<Rightarrow> int" where
  "and_255 v = v mod 256"

text \<open>\<^verbatim>\<open>String.prototype.replace\<close> with a one-character pattern and an empty replacement.\<close>

fun replace_first :: "char \<Rightarrow> string \<Rightarrow> string" where
  "replace_first c [] = []"
| "replace_first c (d # s) = (if d = c then s else d # replace_first c s)"

definition hexToRgb01 :: "string \<Rightarrow> real \<times> real \<times> real" where
  "hexToRgb01 hex =
     (let h = replace_first (CHR ''#'') hex;
          full = (if length h = 3 then concat (map (\<lambda>c. [c, c]) h) else h);
          n = toInt32 (parseInt16 full);
          r = and_255 (shift_right n 16);
          g = and_255 (shift_right n 8);
          b = and_255 n
      in (of_int r / 255, of_int g / 255, of_int b / 255))"

text \<open>
  A colour string: \<open>#\<close> and six lower-case hexadecimal digits. A byte fraction: a
  multiple of 1/255 between 0 and 1.
\<close>

definition lower_hex :: "char \<Rightarrow> bool" where
  "lower_hex c = (c \<in> set ''0123456789abcdef'')"

definition hex_colour :: "string \<Rightarrow> bool" where
  "hex_colour h = (length h = 7 \<and> hd h = CHR ''#'' \<and> list_all lower_hex (tl h))"

definition byte_fraction :: "real \<Rightarrow> bool" where
  "byte_fraction v = (0 \<le> v \<and> v \<le> 1 \<and> of_int \<lfloor>v * 255\<rfloor> = v * 255)"

lemma toString16_one: "n < 16 \<Longrightarrow> toString16 n = [hex_digit n]"
  by (simp add: toString16.simps)

lemma toString16_two:
  "16 \<le> n \<Longrightarrow> n < 256 \<Longrightarrow> toString16 n = [hex_digit (n div 16), hex_digit (n mod 16)]"
  by (subst toString16.simps) (simp add: toString16_one less_mult_imp_div_less)

lemma hex_value_lower:
  assumes "lower_hex c"
  shows "\<exists>d < 16. hex_value c = Some d \<and> hex_digit d = c"
  using assms unfolding lower_hex_def
  by (auto simp: hex_value_def hex_digit_def)

lemma hex_digit_value: "d < 16 \<Longrightarrow> hex_value (hex_digit d) = Some d"
proof -
  assume "d < 16"
  then have "d \<in> {0, 1, 2, 3, 4, 5, 6, 7, 8, 9, 10, 11, 12, 13, 14, 15}" by simp arith
  then show ?thesis
    by (auto simp: hex_value_def hex_digit_def)
qed

lemma nth_digits [simp]:
  "''0123456789abcdef'' ! 0 = CHR ''0''"
  by simp

lemma channel_of_byte:
  assumes "k < 256"
  shows "channel_to_hex (real k / 255) = [hex_digit (k div 16), hex_digit (k mod 16)]"
proof -
  have r: "Math_round (real k) = real k"
    using Math_round_of_int [of "int k"] by simp
  have n: "nat \<lfloor>max 0 (min 255 (real k))\<rfloor> = k"
    using assms by (simp add: min_def max_def)
  show ?thesis
  proof (cases "k < 16")
    case True
    then show ?thesis
      by (simp add: channel_to_hex_def r n toString16_one padStart_def hex_digit_def
          numeral_2_eq_2)
  next
    case False
    with assms show ?thesis
      by (simp add: channel_to_hex_def r n toString16_two padStart_def)
  qed
qed

lemma channel_of_digits:
  assumes "a < 16" "b < 16"
  shows "channel_to_hex (real (16 * a + b) / 255) = [hex_digit a, hex_digit b]"
  using assms channel_of_byte [of "16 * a + b"] by simp

lemma parse_six:
  assumes "hex_value c1 = Some d1" "hex_value c2 = Some d2" "hex_value c3 = Some d3"
    "hex_value c4 = Some d4" "hex_value c5 = Some d5" "hex_value c6 = Some d6"
    "d1 < 16"
  shows "parseInt16 [c1, c2, c3, c4, c5, c6]
     = Some (int (((((d1 * 16 + d2) * 16 + d3) * 16 + d4) * 16 + d5) * 16 + d6))"
proof -
  have ns: "\<not> js_space c1" "c1 \<noteq> CHR ''-''" "c1 \<noteq> CHR ''+''" "c2 \<noteq> CHR ''x''" "c2 \<noteq> CHR ''X''"
    using assms(1,2) by (auto simp: js_space_def hex_value_def Let_def split: if_splits)
  show ?thesis
    using assms ns by (simp add: parseInt16_def Let_def algebra_simps)
qed

lemma bytes_of_triple:
  fixes A B C :: nat
  assumes "A < 256" "B < 256" "C < 256"
  shows "(A * 65536 + B * 256 + C) div 65536 mod 256 = A"
    "(A * 65536 + B * 256 + C) div 256 mod 256 = B"
    "(A * 65536 + B * 256 + C) mod 256 = C"
    "A * 65536 + B * 256 + C < 2 ^ 24"
proof -
  have low: "B * 256 + C < 65536" using assms by linarith
  have "(A * 65536 + B * 256 + C) div 65536 = ((B * 256 + C) + A * 65536) div 65536"
    by (simp add: add.commute add.left_commute add.assoc)
  also have "\<dots> = A + (B * 256 + C) div 65536"
    by (rule div_mult_self1) simp
  also have "\<dots> = A" using low by simp
  finally show "(A * 65536 + B * 256 + C) div 65536 mod 256 = A" using assms by simp
  have e: "A * 65536 + B * 256 + C = C + (A * 256 + B) * 256"
    by (simp add: algebra_simps)
  have "(C + (A * 256 + B) * 256) div 256 = (A * 256 + B) + C div 256"
    by (rule div_mult_self1) simp
  then have d: "(C + (A * 256 + B) * 256) div 256 = A * 256 + B"
    using assms(3) by simp
  have "(C + (A * 256 + B) * 256) mod 256 = C mod 256"
    by (rule mod_mult_self1)
  then have m: "(C + (A * 256 + B) * 256) mod 256 = C"
    using assms(3) by simp
  show "(A * 65536 + B * 256 + C) div 256 mod 256 = B"
    unfolding e d using assms(2) by simp
  show "(A * 65536 + B * 256 + C) mod 256 = C"
    unfolding e by (rule m)
  show "A * 65536 + B * 256 + C < 2 ^ 24" using assms by simp
qed

lemma bytes_of_digits:
  fixes d1 d2 d3 d4 d5 d6 :: nat
  assumes "d1 < 16" "d2 < 16" "d3 < 16" "d4 < 16" "d5 < 16" "d6 < 16"
  defines "n \<equiv> ((((d1 * 16 + d2) * 16 + d3) * 16 + d4) * 16 + d5) * 16 + d6"
  shows "n div 65536 mod 256 = 16 * d1 + d2" "n div 256 mod 256 = 16 * d3 + d4"
    "n mod 256 = 16 * d5 + d6" "n < 2 ^ 24"
proof -
  have n: "n = (16 * d1 + d2) * 65536 + (16 * d3 + d4) * 256 + (16 * d5 + d6)"
    by (simp add: n_def algebra_simps)
  have b: "16 * d1 + d2 < 256" "16 * d3 + d4 < 256" "16 * d5 + d6 < 256"
    using assms(1-6) by simp_all
  show "n div 65536 mod 256 = 16 * d1 + d2" "n div 256 mod 256 = 16 * d3 + d4"
    "n mod 256 = 16 * d5 + d6" "n < 2 ^ 24"
    unfolding n by (rule bytes_of_triple [OF b])+
qed

lemma channels_of_int:
  assumes "n < 2 ^ 24"
  shows "and_255 (shift_right (toInt32 (Some (int n))) k) = int (n div 2 ^ k mod 256)"
proof -
  have "int n + 2 ^ 31 < 2 ^ 32" using assms by simp
  then have "(int n + 2 ^ 31) mod 2 ^ 32 = int n + 2 ^ 31" by simp
  then show ?thesis
    by (simp add: toInt32_def shift_right_def and_255_def zdiv_int zmod_int)
qed

lemma hexToRgb01_digits:
  assumes "hex_value c1 = Some d1" "hex_value c2 = Some d2" "hex_value c3 = Some d3"
    "hex_value c4 = Some d4" "hex_value c5 = Some d5" "hex_value c6 = Some d6"
    "d1 < 16" "d2 < 16" "d3 < 16" "d4 < 16" "d5 < 16" "d6 < 16"
  shows "hexToRgb01 (CHR ''#'' # [c1, c2, c3, c4, c5, c6])
     = (real (16 * d1 + d2) / 255, real (16 * d3 + d4) / 255, real (16 * d5 + d6) / 255)"
proof -
  define n where "n = ((((d1 * 16 + d2) * 16 + d3) * 16 + d4) * 16 + d5) * 16 + d6"
  have p: "parseInt16 [c1, c2, c3, c4, c5, c6] = Some (int n)"
    unfolding n_def using assms by (intro parse_six) simp_all
  have b: "n div 65536 mod 256 = 16 * d1 + d2" "n div 256 mod 256 = 16 * d3 + d4"
    "n mod 256 = 16 * d5 + d6" "n < 2 ^ 24"
    unfolding n_def using assms(7-12) by (rule bytes_of_digits)+
  have c: "and_255 (shift_right (toInt32 (Some (int n))) 16) = int (16 * d1 + d2)"
    "and_255 (shift_right (toInt32 (Some (int n))) 8) = int (16 * d3 + d4)"
    "and_255 (toInt32 (Some (int n))) = int (16 * d5 + d6)"
    using channels_of_int [OF b(4), of 16] channels_of_int [OF b(4), of 8]
      channels_of_int [OF b(4), of 0] b(1-3)
    by (simp_all add: shift_right_def)
  show ?thesis
    unfolding hexToRgb01_def by (simp add: Let_def p c)
qed

lemma list_seven:
  assumes "length h = 7"
  obtains c0 c1 c2 c3 c4 c5 c6 where "h = [c0, c1, c2, c3, c4, c5, c6]"
proof -
  from assms obtain c0 h1 where "h = c0 # h1" "length h1 = 6" by (cases h) auto
  moreover then obtain c1 h2 where "h1 = c1 # h2" "length h2 = 5" by (cases h1) auto
  moreover then obtain c2 h3 where "h2 = c2 # h3" "length h3 = 4" by (cases h2) auto
  moreover then obtain c3 h4 where "h3 = c3 # h4" "length h4 = 3" by (cases h3) auto
  moreover then obtain c4 h5 where "h4 = c4 # h5" "length h5 = 2" by (cases h4) auto
  moreover then obtain c5 h6 where "h5 = c5 # h6" "length h6 = 1" by (cases h5) auto
  moreover then obtain c6 where "h6 = [c6]" by (cases h6) auto
  ultimately show ?thesis using that by simp
qed

lemma hex_round_trip:
  assumes "hex_colour h"
  shows "rgb01ToHex (hexToRgb01 h) = h"
proof -
  from assms have "length h = 7" by (simp add: hex_colour_def)
  then obtain c0 c1 c2 c3 c4 c5 c6 where h: "h = [c0, c1, c2, c3, c4, c5, c6]"
    by (rule list_seven)
  with assms have c0: "c0 = CHR ''#''"
    and l: "lower_hex c1" "lower_hex c2" "lower_hex c3" "lower_hex c4" "lower_hex c5" "lower_hex c6"
    by (simp_all add: hex_colour_def)
  from l(1) obtain d1 where d1: "d1 < 16" "hex_value c1 = Some d1" "hex_digit d1 = c1"
    using hex_value_lower by blast
  from l(2) obtain d2 where d2: "d2 < 16" "hex_value c2 = Some d2" "hex_digit d2 = c2"
    using hex_value_lower by blast
  from l(3) obtain d3 where d3: "d3 < 16" "hex_value c3 = Some d3" "hex_digit d3 = c3"
    using hex_value_lower by blast
  from l(4) obtain d4 where d4: "d4 < 16" "hex_value c4 = Some d4" "hex_digit d4 = c4"
    using hex_value_lower by blast
  from l(5) obtain d5 where d5: "d5 < 16" "hex_value c5 = Some d5" "hex_digit d5 = c5"
    using hex_value_lower by blast
  from l(6) obtain d6 where d6: "d6 < 16" "hex_value c6 = Some d6" "hex_digit d6 = c6"
    using hex_value_lower by blast
  have "hexToRgb01 h
     = (real (16 * d1 + d2) / 255, real (16 * d3 + d4) / 255, real (16 * d5 + d6) / 255)"
    unfolding h c0 using d1 d2 d3 d4 d5 d6 by (intro hexToRgb01_digits) simp_all
  moreover have "channel_to_hex (real (16 * d1 + d2) / 255) = [c1, c2]"
    "channel_to_hex (real (16 * d3 + d4) / 255) = [c3, c4]"
    "channel_to_hex (real (16 * d5 + d6) / 255) = [c5, c6]"
    using channel_of_digits [OF d1(1) d2(1)] channel_of_digits [OF d3(1) d4(1)]
      channel_of_digits [OF d5(1) d6(1)] d1(3) d2(3) d3(3) d4(3) d5(3) d6(3)
    by simp_all
  ultimately show ?thesis
    by (simp only: rgb01ToHex_def prod.case h c0 append.simps)
qed

lemma byte_fraction_obtain:
  assumes "byte_fraction v"
  obtains k where "k < 256" "v = real k / 255"
proof -
  define k where "k = nat \<lfloor>v * 255\<rfloor>"
  from assms have v: "0 \<le> v" "v \<le> 1" "of_int \<lfloor>v * 255\<rfloor> = v * 255"
    by (simp_all add: byte_fraction_def)
  have f: "0 \<le> \<lfloor>v * 255\<rfloor>" "\<lfloor>v * 255\<rfloor> \<le> 255"
    using v(1,2) by (simp_all add: floor_le_iff)
  from f have "k < 256" unfolding k_def by linarith
  moreover have "real k = v * 255"
    using f(1) v(3) by (simp add: k_def)
  then have "v = real k / 255" by simp
  ultimately show ?thesis using that by blast
qed

lemma hexToRgb01_bytes:
  assumes "k1 < 256" "k2 < 256" "k3 < 256"
  shows "hexToRgb01 (rgb01ToHex (real k1 / 255, real k2 / 255, real k3 / 255))
     = (real k1 / 255, real k2 / 255, real k3 / 255)"
proof -
  have d: "k div 16 < 16" "k mod 16 < 16" "16 * (k div 16) + k mod 16 = k" if "k < 256" for k :: nat
    using that by simp_all
  have "rgb01ToHex (real k1 / 255, real k2 / 255, real k3 / 255)
     = CHR ''#'' # [hex_digit (k1 div 16), hex_digit (k1 mod 16), hex_digit (k2 div 16),
         hex_digit (k2 mod 16), hex_digit (k3 div 16), hex_digit (k3 mod 16)]"
    using assms by (simp add: rgb01ToHex_def channel_of_byte)
  moreover have "hexToRgb01 (CHR ''#'' # [hex_digit (k1 div 16), hex_digit (k1 mod 16),
         hex_digit (k2 div 16), hex_digit (k2 mod 16), hex_digit (k3 div 16), hex_digit (k3 mod 16)])
     = (real (16 * (k1 div 16) + k1 mod 16) / 255, real (16 * (k2 div 16) + k2 mod 16) / 255,
        real (16 * (k3 div 16) + k3 mod 16) / 255)"
    using assms d by (intro hexToRgb01_digits hex_digit_value) simp_all
  ultimately show ?thesis
    using assms d(3) by simp
qed

text \<open>
  C10. The two colour conversions invert each other: converting a colour string of
  \<open>#\<close> and six lower-case hexadecimal digits to an RGB triple and back returns the
  string, and converting a triple of multiples of 1/255 in [0,1] to a string and back
  returns the triple.
\<close>

theorem hex_rgb_round_trip:
  "(hex_colour h \<longrightarrow> rgb01ToHex (hexToRgb01 h) = h) \<and>
   (byte_fraction r \<and> byte_fraction g \<and> byte_fraction b \<longrightarrow>
      hexToRgb01 (rgb01ToHex (r, g, b)) = (r, g, b))"
proof (intro conjI impI)
  assume "hex_colour h"
  then show "rgb01ToHex (hexToRgb01 h) = h" by (rule hex_round_trip)
next
  assume a: "byte_fraction r \<and> byte_fraction g \<and> byte_fraction b"
  then obtain k1 where k1: "k1 < 256" "r = real k1 / 255" using byte_fraction_obtain by blast
  from a obtain k2 where k2: "k2 < 256" "g = real k2 / 255" using byte_fraction_obtain by blast
  from a obtain k3 where k3: "k3 < 256" "b = real k3 / 255" using byte_fraction_obtain by blast
  show "hexToRgb01 (rgb01ToHex (r, g, b)) = (r, g, b)"
    unfolding k1 k2 k3 using k1(1) k2(1) k3(1) by (rule hexToRgb01_bytes)
qed

theorem hex_rgb_round_trip_witness:
  "hex_colour ''#ffcc00'' \<and> rgb01ToHex (hexToRgb01 ''#ffcc00'') = ''#ffcc00'' \<and>
   byte_fraction 1 \<and> byte_fraction (4 / 5) \<and> byte_fraction 0 \<and>
   hexToRgb01 (rgb01ToHex (1, 4 / 5, 0)) = (1, 4 / 5, 0)"
proof -
  have h: "hex_colour ''#ffcc00''"
    by (simp add: hex_colour_def lower_hex_def)
  have b: "byte_fraction 1" "byte_fraction (4 / 5)" "byte_fraction 0"
    by (simp_all add: byte_fraction_def)
  from hex_rgb_round_trip [of "''#ffcc00''" 1 "4 / 5" 0] h b show ?thesis by simp
qed

section \<open>The geometry cache\<close>

text \<open>
  The cache key is the JSON text of the kind and the four geometry parameters. The
  serialiser belongs to the language runtime and is a parameter of the model.
\<close>

record brickGeomParams =
  fn :: real
  stud_d :: real
  stud_h :: real
  wall_gap :: real

type_synonym json_text = "string \<times> real \<times> real \<times> real \<times> real \<Rightarrow> string"

definition geomKey :: "json_text \<Rightarrow> string \<Rightarrow> brickGeomParams \<Rightarrow> string" where
  "geomKey stringify k p = stringify (k, fn p, stud_d p, stud_h p, wall_gap p)"

text \<open>
  The two maps of the component, the promises created so far (each with the key its
  closure holds and its state), the number of geometry objects created so far (a
  geometry is identified by its creation index), and the keys for which the external
  compiler has been started, in order.
\<close>

datatype promise_state = Pending | Fulfilled nat | Rejected string

datatype compile_result = CompileError string | StlBytes "nat list"

record geom_state =
  geomCache :: "string \<rightharpoonup> nat"
  geomPromise :: "string \<rightharpoonup> nat"
  promises :: "(string \<times> promise_state) list"
  geometries :: nat
  compiles :: "string list"

text \<open>
  What a call hands back: the cached geometry, or a promise. A call that finds neither
  a cached geometry nor a promise in flight builds the solid description, starts the
  compiler and registers the new promise, all before it yields.
\<close>

datatype geometry_request = Cached nat | Awaiting nat

definition getBrickGeometry ::
  "json_text \<Rightarrow> string \<Rightarrow> brickGeomParams \<Rightarrow> geom_state \<Rightarrow> geometry_request \<times> geom_state" where
  "getBrickGeometry stringify k p s =
     (let key = geomKey stringify k p in
      case geomCache s key of
        Some cached \<Rightarrow> (Cached cached, s)
      | None \<Rightarrow>
          (case geomPromise s key of
             Some inflight \<Rightarrow> (Awaiting inflight, s)
           | None \<Rightarrow>
               (let promise = length (promises s)
                in (Awaiting promise,
                    s\<lparr>promises := promises s @ [(key, Pending)],
                      compiles := compiles s @ [key],
                      geomPromise := (geomPromise s)(key \<mapsto> promise)\<rparr>))))"

text \<open>
  The compiler answers for a pending promise. With mesh bytes, the continuation parses
  them into a new geometry, stores it in the cache, removes the promise from the
  in-flight map and fulfils it. With an error, the \<^verbatim>\<open>await\<close> throws: the promise is
  rejected with the diagnostic and the statements after the \<^verbatim>\<open>await\<close> do not run.
  \<open>CompileError\<close> stands for every exception raised before the cache is written: the
  compiler's error message, a failure of its worker, or the loader refusing the bytes.
\<close>

definition compile_settled :: "nat \<Rightarrow> compile_result \<Rightarrow> geom_state \<Rightarrow> geom_state" where
  "compile_settled promise res s =
     (if promise < length (promises s) \<and> snd (promises s ! promise) = Pending
      then
        (let key = fst (promises s ! promise) in
         case res of
           CompileError diagnostic \<Rightarrow>
             s\<lparr>promises := (promises s)[promise := (key, Rejected diagnostic)]\<rparr>
         | StlBytes bytes \<Rightarrow>
             (let geo = geometries s
              in s\<lparr>geometries := Suc geo,
                   geomCache := (geomCache s)(key \<mapsto> geo),
                   geomPromise := (geomPromise s)(key := None),
                   promises := (promises s)[promise := (key, Fulfilled geo)]\<rparr>))
      else s)"

text \<open>What the caller of a request observes in a given state.\<close>

definition outcome :: "geom_state \<Rightarrow> geometry_request \<Rightarrow> promise_state" where
  "outcome s r =
     (case r of
        Cached geo \<Rightarrow> Fulfilled geo
      | Awaiting promise \<Rightarrow>
          if promise < length (promises s) then snd (promises s ! promise) else Pending)"

datatype geom_event =
    Request string brickGeomParams
  | Settled nat compile_result

fun geom_run ::
  "json_text \<Rightarrow> geom_event list \<Rightarrow> geom_state \<times> (string \<times> geometry_request) list
     \<Rightarrow> geom_state \<times> (string \<times> geometry_request) list" where
  "geom_run stringify [] acc = acc"
| "geom_run stringify (Request k p # evs) (s, rs) =
     (let (r, s') = getBrickGeometry stringify k p s
      in geom_run stringify evs (s', rs @ [(geomKey stringify k p, r)]))"
| "geom_run stringify (Settled promise res # evs) (s, rs) =
     geom_run stringify evs (compile_settled promise res s, rs)"

definition geom_empty :: geom_state where
  "geom_empty = \<lparr>geomCache = Map.empty, geomPromise = Map.empty, promises = [],
                  geometries = 0, compiles = []\<rparr>"

definition pending_for :: "string \<Rightarrow> geom_state \<Rightarrow> nat" where
  "pending_for key s = length (filter (\<lambda>(k, st). k = key \<and> st = Pending) (promises s))"

text \<open>
  The invariant of the cache: no two promises share a key, a compile was started exactly
  for the promises, a fulfilled promise has its geometry in the cache and is no longer
  in flight, any other promise is the one in flight for its key, and both maps mention
  only keys of promises.
\<close>

definition geom_ok :: "geom_state \<Rightarrow> bool" where
  "geom_ok s =
     (distinct (map fst (promises s)) \<and>
      compiles s = map fst (promises s) \<and>
      (\<forall>i < length (promises s). \<forall>geo.
          snd (promises s ! i) = Fulfilled geo \<longrightarrow>
            geomCache s (fst (promises s ! i)) = Some geo \<and>
            geomPromise s (fst (promises s ! i)) = None) \<and>
      (\<forall>i < length (promises s).
          (\<forall>geo. snd (promises s ! i) \<noteq> Fulfilled geo) \<longrightarrow>
            geomPromise s (fst (promises s ! i)) = Some i \<and>
            geomCache s (fst (promises s ! i)) = None) \<and>
      (\<forall>key. geomCache s key \<noteq> None \<or> geomPromise s key \<noteq> None \<longrightarrow>
          key \<in> fst ` set (promises s)))"

definition results_ok :: "geom_state \<Rightarrow> (string \<times> geometry_request) list \<Rightarrow> bool" where
  "results_ok s rs =
     ((\<forall>key geo. (key, Cached geo) \<in> set rs \<longrightarrow> geomCache s key = Some geo) \<and>
      (\<forall>key i. (key, Awaiting i) \<in> set rs \<longrightarrow>
          i < length (promises s) \<and> fst (promises s ! i) = key))"

lemma geom_empty_ok: "geom_ok geom_empty" "results_ok geom_empty []"
  by (simp_all add: geom_ok_def geom_empty_def results_ok_def)

lemma key_known:
  assumes "geom_ok s" "i < length (promises s)"
  shows "geomCache s (fst (promises s ! i)) \<noteq> None \<or> geomPromise s (fst (promises s ! i)) \<noteq> None"
  using assms unfolding geom_ok_def by (cases "snd (promises s ! i)") auto

lemma fresh_key:
  assumes "geom_ok s" "geomCache s key = None" "geomPromise s key = None"
  shows "key \<notin> fst ` set (promises s)"
proof
  assume "key \<in> fst ` set (promises s)"
  then obtain i where "i < length (promises s)" "fst (promises s ! i) = key"
    by (auto simp: in_set_conv_nth)
  with key_known [OF assms(1), of i] assms(2,3) show False by simp
qed

lemma same_key_same_index:
  assumes "geom_ok s" "i < length (promises s)" "j < length (promises s)"
    "fst (promises s ! i) = fst (promises s ! j)"
  shows "i = j"
proof -
  from assms(1) have d: "distinct (map fst (promises s))" by (simp add: geom_ok_def)
  have e: "map fst (promises s) ! i = map fst (promises s) ! j"
    using assms(2-4) by simp
  have l: "i < length (map fst (promises s))" "j < length (map fst (promises s))"
    using assms(2,3) by simp_all
  from nth_eq_iff_index_eq [OF d l] e show ?thesis by blast
qed

lemma request_ok:
  assumes "geom_ok s" "getBrickGeometry stringify k p s = (r, s')"
  shows "geom_ok s'"
proof -
  define key where "key = geomKey stringify k p"
  show ?thesis
  proof (cases "geomCache s key = None \<and> geomPromise s key = None")
    case False
    with assms have "s' = s"
      by (auto simp: getBrickGeometry_def Let_def key_def split: option.splits)
    with assms(1) show ?thesis by simp
  next
    case True
    then have s': "s' = s\<lparr>promises := promises s @ [(key, Pending)],
                      compiles := compiles s @ [key],
                      geomPromise := (geomPromise s)(key \<mapsto> length (promises s))\<rparr>"
      using assms(2) by (auto simp: getBrickGeometry_def Let_def key_def)
    have fresh: "key \<notin> fst ` set (promises s)"
      using fresh_key [OF assms(1)] True by simp
    then have ne: "\<And>i. i < length (promises s) \<Longrightarrow> fst (promises s ! i) \<noteq> key"
      by (metis image_eqI nth_mem)
    show ?thesis
      using assms(1) fresh ne True unfolding s' geom_ok_def
      by (auto simp: nth_append less_Suc_eq)
  qed
qed

lemma settled_ok:
  assumes "geom_ok s"
  shows "geom_ok (compile_settled promise res s)"
proof (cases "promise < length (promises s) \<and> snd (promises s ! promise) = Pending")
  case False
  with assms show ?thesis by (auto simp: compile_settled_def)
next
  case True
  define key where "key = fst (promises s ! promise)"
  have other: "\<And>i. i < length (promises s) \<Longrightarrow> i \<noteq> promise \<Longrightarrow> fst (promises s ! i) \<noteq> key"
    using same_key_same_index [OF assms] True unfolding key_def by blast
  have keys: "map fst ((promises s)[promise := (key, st)]) = map fst (promises s)" for st
    using True by (simp add: key_def map_update list_update_same_conv)
  have img: "fst ` set ((promises s)[promise := (key, st)]) = fst ` set (promises s)" for st
    using keys [of st] by (metis set_map)
  have here: "geomPromise s key = Some promise" "geomCache s key = None"
    using assms True unfolding geom_ok_def key_def by auto
  show ?thesis
  proof (cases res)
    case (CompileError diagnostic)
    then have s': "compile_settled promise res s
        = s\<lparr>promises := (promises s)[promise := (key, Rejected diagnostic)]\<rparr>"
      using True by (simp add: compile_settled_def key_def)
    show ?thesis
      using assms other here True unfolding s' geom_ok_def
      by (simp add: keys img nth_list_update)
  next
    case (StlBytes bytes)
    then have s': "compile_settled promise res s
        = s\<lparr>geometries := Suc (geometries s),
             geomCache := (geomCache s)(key \<mapsto> geometries s),
             geomPromise := (geomPromise s)(key := None),
             promises := (promises s)[promise := (key, Fulfilled (geometries s))]\<rparr>"
      using True by (simp add: compile_settled_def key_def Let_def)
    have mem: "key \<in> fst ` set (promises s)"
      using True unfolding key_def by (metis image_eqI nth_mem)
    show ?thesis
      using assms other here True mem unfolding s' geom_ok_def
      by (auto simp: keys img nth_list_update)
  qed
qed

lemma geom_ok_fulfilled:
  assumes "geom_ok s" "i < length (promises s)" "snd (promises s ! i) = Fulfilled geo"
  shows "geomCache s (fst (promises s ! i)) = Some geo"
    "geomPromise s (fst (promises s ! i)) = None"
  using assms by (simp_all add: geom_ok_def)

lemma geom_ok_unsettled:
  assumes "geom_ok s" "i < length (promises s)" "\<forall>geo. snd (promises s ! i) \<noteq> Fulfilled geo"
  shows "geomPromise s (fst (promises s ! i)) = Some i"
    "geomCache s (fst (promises s ! i)) = None"
  using assms by (simp_all add: geom_ok_def)

lemma geom_ok_known:
  assumes "geom_ok s" "geomCache s key \<noteq> None \<or> geomPromise s key \<noteq> None"
  shows "key \<in> fst ` set (promises s)"
proof -
  from assms(1) have "\<forall>key. geomCache s key \<noteq> None \<or> geomPromise s key \<noteq> None \<longrightarrow>
          key \<in> fst ` set (promises s)"
    unfolding geom_ok_def by (elim conjE)
  with assms(2) show ?thesis by blast
qed

lemma promise_entry:
  assumes "geom_ok s" "geomPromise s key = Some i"
  shows "i < length (promises s) \<and> fst (promises s ! i) = key"
proof -
  from assms have "key \<in> fst ` set (promises s)" by (intro geom_ok_known) simp_all
  then obtain j where j: "j < length (promises s)" "fst (promises s ! j) = key"
    by (auto simp: in_set_conv_nth)
  show ?thesis
  proof (cases "\<exists>geo. snd (promises s ! j) = Fulfilled geo")
    case True
    then obtain geo where "snd (promises s ! j) = Fulfilled geo" by blast
    from geom_ok_fulfilled(2) [OF assms(1) j(1) this] j(2) assms(2) show ?thesis by simp
  next
    case False
    then have "\<forall>geo. snd (promises s ! j) \<noteq> Fulfilled geo" by simp
    from geom_ok_unsettled(1) [OF assms(1) j(1) this] j assms(2) show ?thesis by simp
  qed
qed

lemma cache_entry:
  assumes "geom_ok s" "geomCache s key = Some geo" "i < length (promises s)"
    "fst (promises s ! i) = key"
  shows "snd (promises s ! i) = Fulfilled geo"
proof (cases "\<exists>g. snd (promises s ! i) = Fulfilled g")
  case True
  then obtain g where g: "snd (promises s ! i) = Fulfilled g" by blast
  from geom_ok_fulfilled(1) [OF assms(1,3) g] assms(2,4) g show ?thesis by simp
next
  case False
  then have "\<forall>geo. snd (promises s ! i) \<noteq> Fulfilled geo" by simp
  from geom_ok_unsettled(2) [OF assms(1,3) this] assms(2,4) show ?thesis by simp
qed

lemma request_results:
  assumes "geom_ok s" "results_ok s rs" "getBrickGeometry stringify k p s = (r, s')"
  shows "results_ok s' (rs @ [(geomKey stringify k p, r)])"
proof -
  define key where "key = geomKey stringify k p"
  show ?thesis
  proof (cases "geomCache s key")
    case (Some cached)
    with assms(3) have "s' = s" "r = Cached cached"
      by (auto simp: getBrickGeometry_def Let_def key_def)
    with assms(2) Some show ?thesis
      by (auto simp: results_ok_def key_def)
  next
    case None
    show ?thesis
    proof (cases "geomPromise s key")
      case (Some inflight)
      with None assms(3) have "s' = s" "r = Awaiting inflight"
        by (auto simp: getBrickGeometry_def Let_def key_def)
      with assms(2) promise_entry [OF assms(1) Some] show ?thesis
        by (auto simp: results_ok_def key_def)
    next
      case np: None
      with None assms(3) have s': "s' = s\<lparr>promises := promises s @ [(key, Pending)],
                      compiles := compiles s @ [key],
                      geomPromise := (geomPromise s)(key \<mapsto> length (promises s))\<rparr>"
        and r: "r = Awaiting (length (promises s))"
        by (auto simp: getBrickGeometry_def Let_def key_def)
      have old: "i < length (promises s)" "fst (promises s ! i) = k'"
        if "(k', Awaiting i) \<in> set rs" for k' i
        using assms(2) that unfolding results_ok_def by blast+
      have cached: "geomCache s k' = Some geo" if "(k', Cached geo) \<in> set rs" for k' geo
        using assms(2) that unfolding results_ok_def by blast
      show ?thesis
        unfolding s' r results_ok_def key_def [symmetric]
        using old cached by (auto simp: nth_append less_Suc_eq)
    qed
  qed
qed

lemma settled_promises:
  "length (promises (compile_settled promise res s)) = length (promises s)"
  "i < length (promises s) \<Longrightarrow>
     fst (promises (compile_settled promise res s) ! i) = fst (promises s ! i)"
  by (cases res; simp add: compile_settled_def Let_def nth_list_update)+

lemma settled_cache:
  assumes "geom_ok s" "geomCache s key = Some geo"
  shows "geomCache (compile_settled promise res s) key = Some geo"
proof (cases "promise < length (promises s) \<and> snd (promises s ! promise) = Pending")
  case False
  with assms show ?thesis by (auto simp: compile_settled_def)
next
  case True
  then have "geomCache s (fst (promises s ! promise)) = None"
    using geom_ok_unsettled(2) [OF assms(1), of promise] by simp
  with assms(2) have "fst (promises s ! promise) \<noteq> key" by auto
  with True assms(2) show ?thesis
    by (cases res) (simp_all add: compile_settled_def Let_def)
qed

lemma settled_results:
  assumes "geom_ok s" "results_ok s rs"
  shows "results_ok (compile_settled promise res s) rs"
  using assms(2) settled_cache [OF assms(1)]
  unfolding results_ok_def by (simp add: settled_promises)

lemma geom_run_ok:
  assumes "geom_ok s" "results_ok s rs" "geom_run stringify evs (s, rs) = (s', rs')"
  shows "geom_ok s' \<and> results_ok s' rs'"
  using assms
proof (induction evs arbitrary: s rs)
  case Nil
  then show ?case by simp
next
  case (Cons ev evs)
  show ?case
  proof (cases ev)
    case (Request k p)
    obtain r s1 where g: "getBrickGeometry stringify k p s = (r, s1)"
      by (cases "getBrickGeometry stringify k p s") auto
    with Cons.prems(3) Request
    have run: "geom_run stringify evs (s1, rs @ [(geomKey stringify k p, r)]) = (s', rs')"
      by simp
    from Cons.IH [OF request_ok [OF Cons.prems(1) g] request_results [OF Cons.prems(1,2) g] run]
    show ?thesis .
  next
    case (Settled promise res)
    with Cons.prems(3)
    have run: "geom_run stringify evs (compile_settled promise res s, rs) = (s', rs')"
      by simp
    from Cons.IH [OF settled_ok [OF Cons.prems(1)] settled_results [OF Cons.prems(1,2)] run]
    show ?thesis .
  qed
qed

lemma count_distinct:
  assumes "distinct xs"
  shows "length (filter (\<lambda>x. x = key) xs) \<le> 1"
  using assms by (induction xs) (auto simp: filter_empty_conv)

lemma pending_le_keys:
  "pending_for key s \<le> length (filter (\<lambda>x. x = key) (map fst (promises s)))"
proof -
  have "length (filter (\<lambda>(k, st). k = key \<and> st = Pending) ps)
      \<le> length (filter (\<lambda>x. x = key) (map fst ps))" for ps :: "(string \<times> promise_state) list"
    by (induction ps) auto
  then show ?thesis by (simp add: pending_for_def)
qed

text \<open>
  C2. In any interleaving of requests and compiler answers, two requests with the same
  key observe the same outcome, whether they shared a promise in flight or one of them
  found the cached geometry: a fulfilled outcome is the same geometry object. At most one
  compile is pending per key, and the compiler is started at most once per key.
\<close>

theorem same_key_same_mesh:
  assumes "geom_run stringify evs (geom_empty, []) = (s, rs)"
    and "(key, r1) \<in> set rs" and "(key, r2) \<in> set rs"
  shows "outcome s r1 = outcome s r2 \<and>
         pending_for key s \<le> 1 \<and>
         length (filter (\<lambda>started. started = key) (compiles s)) \<le> 1"
proof -
  have ok: "geom_ok s" "results_ok s rs"
    using geom_run_ok [OF geom_empty_ok assms(1)] by simp_all
  have d: "distinct (map fst (promises s))" "compiles s = map fst (promises s)"
    using ok(1) by (simp_all add: geom_ok_def)
  have c: "length (filter (\<lambda>started. started = key) (compiles s)) \<le> 1"
    unfolding d(2) using d(1) by (rule count_distinct)
  have p: "pending_for key s \<le> 1"
    using pending_le_keys [of key s] c d(2) by simp
  have r: "(\<forall>geo. r = Cached geo \<longrightarrow> geomCache s key = Some geo) \<and>
        (\<forall>i. r = Awaiting i \<longrightarrow> i < length (promises s) \<and> fst (promises s ! i) = key)"
    if "(key, r) \<in> set rs" for r
    using ok(2) that unfolding results_ok_def by blast
  have "outcome s r1 = outcome s r2"
  proof (cases r1)
    case c1: (Cached g1)
    show ?thesis
    proof (cases r2)
      case (Cached g2)
      with c1 r [OF assms(2)] r [OF assms(3)] show ?thesis by simp
    next
      case (Awaiting j)
      with c1 r [OF assms(2)] r [OF assms(3)] cache_entry [OF ok(1), of key g1 j]
      show ?thesis by (simp add: outcome_def)
    qed
  next
    case a1: (Awaiting i)
    show ?thesis
    proof (cases r2)
      case (Cached g2)
      with a1 r [OF assms(2)] r [OF assms(3)] cache_entry [OF ok(1), of key g2 i]
      show ?thesis by (simp add: outcome_def)
    next
      case (Awaiting j)
      with a1 r [OF assms(2)] r [OF assms(3)] same_key_same_index [OF ok(1), of i j]
      show ?thesis by simp
    qed
  qed
  with p c show ?thesis by simp
qed

definition kind_text :: json_text where
  "kind_text = (\<lambda>(k, f, d, h, w). k)"

definition default_params :: brickGeomParams where
  "default_params = \<lparr>fn = 48, stud_d = 24 / 5, stud_h = 9 / 5, wall_gap = 1 / 50\<rparr>"

definition shared_requests :: "geom_event list" where
  "shared_requests =
     [Request ''2x4'' default_params, Request ''2x4'' default_params,
      Settled 0 (StlBytes []), Request ''2x4'' default_params]"

lemma shared_requests_run:
  "geom_run kind_text shared_requests (geom_empty, []) =
     (\<lparr>geomCache = [''2x4'' \<mapsto> 0], geomPromise = Map.empty,
       promises = [(''2x4'', Fulfilled 0)], geometries = 1, compiles = [''2x4'']\<rparr>,
      [(''2x4'', Awaiting 0), (''2x4'', Awaiting 0), (''2x4'', Cached 0)])"
  by (simp add: shared_requests_def geom_empty_def getBrickGeometry_def compile_settled_def
      geomKey_def kind_text_def default_params_def Let_def)

theorem same_key_same_mesh_witness:
  "(''2x4'', Awaiting 0) \<in> set (snd (geom_run kind_text shared_requests (geom_empty, []))) \<and>
   (''2x4'', Cached 0) \<in> set (snd (geom_run kind_text shared_requests (geom_empty, []))) \<and>
   outcome (fst (geom_run kind_text shared_requests (geom_empty, []))) (Awaiting 0) = Fulfilled 0 \<and>
   outcome (fst (geom_run kind_text shared_requests (geom_empty, []))) (Cached 0) = Fulfilled 0 \<and>
   pending_for ''2x4'' (fst (geom_run kind_text shared_requests (geom_empty, []))) \<le> 1"
proof -
  have m: "(''2x4'', Awaiting 0) \<in> set (snd (geom_run kind_text shared_requests (geom_empty, [])))"
    "(''2x4'', Cached 0) \<in> set (snd (geom_run kind_text shared_requests (geom_empty, [])))"
    by (simp_all add: shared_requests_run)
  have o: "outcome (fst (geom_run kind_text shared_requests (geom_empty, []))) (Cached 0) = Fulfilled 0"
    by (simp add: outcome_def)
  from same_key_same_mesh [OF prod.collapse [symmetric] m] m o show ?thesis by simp
qed

text \<open>
  C1. A compiler failure rejects the promise that all waiters of the key share, with the
  diagnostic, and writes nothing into the geometry cache. The rejected promise stays in
  the in-flight map, so a later request for the same key receives that rejection and
  starts no second compile.
\<close>

theorem failed_compile_stays_in_flight:
  "geom_run stringify
     [Request k p, Settled 0 (CompileError diagnostic), Request k p] (geom_empty, []) =
     (\<lparr>geomCache = Map.empty, geomPromise = [geomKey stringify k p \<mapsto> 0],
       promises = [(geomKey stringify k p, Rejected diagnostic)], geometries = 0,
       compiles = [geomKey stringify k p]\<rparr>,
      [(geomKey stringify k p, Awaiting 0), (geomKey stringify k p, Awaiting 0)]) \<and>
   outcome (fst (geom_run stringify
     [Request k p, Settled 0 (CompileError diagnostic), Request k p] (geom_empty, [])))
     (Awaiting 0) = Rejected diagnostic"
  by (simp add: geom_empty_def getBrickGeometry_def compile_settled_def Let_def outcome_def)

section \<open>Regular expressions of the parser\<close>

text \<open>
  The parser is written with regular expressions. Every quantifier in them applies to a
  single character class, so a pattern is a list of items: a class taken once, greedily
  any number of times, lazily any number of times, greedily at least once, or optionally;
  the start and the end of a capture group; and the end-of-line assertion of the
  multi-line mode. \<open>LitI\<close> is a literal under the ignore-case flag, \<open>Dot\<close> is any
  character but a line terminator.
\<close>

datatype char_class =
    Lit char
  | LitI char
  | Space
  | Digit
  | Dot
  | Any
  | Sign

definition line_terminator :: "char \<Rightarrow> bool" where
  "line_terminator c = (of_char c \<in> {10, 13 :: nat})"

definition ascii_upper :: "char \<Rightarrow> char" where
  "ascii_upper c =
     (let n = (of_char c :: nat) in if 97 \<le> n \<and> n \<le> 122 then char_of (n - 32) else c)"

fun in_class :: "char_class \<Rightarrow> char \<Rightarrow> bool" where
  "in_class (Lit a) c = (c = a)"
| "in_class (LitI a) c = (ascii_upper c = ascii_upper a)"
| "in_class Space c = js_space c"
| "in_class Digit c = (let n = (of_char c :: nat) in 48 \<le> n \<and> n \<le> 57)"
| "in_class Dot c = (\<not> line_terminator c)"
| "in_class Any c = True"
| "in_class Sign c = (c = CHR ''-'' \<or> c = CHR ''+'')"

datatype item =
    One char_class
  | Star char_class
  | Lazy char_class
  | Plus char_class
  | Opt char_class
  | Open nat
  | Close nat
  | Eol

text \<open>
  The backtracking matcher. It returns the position after the match and the capture
  groups as offsets from the start of the match. A greedy item first tries to take one
  more character and falls back to going on without it; a lazy item does the reverse.
\<close>

type_synonym captures = "(nat \<times> nat \<times> nat) list"

fun group_start :: "nat \<Rightarrow> (nat \<times> nat) list \<Rightarrow> nat" where
  "group_start n [] = 0"
| "group_start n ((m, p) # opens) = (if m = n then p else group_start n opens)"

fun rmatch :: "item list \<Rightarrow> string \<Rightarrow> nat \<Rightarrow> (nat \<times> nat) list \<Rightarrow> captures
    \<Rightarrow> (nat \<times> captures) option" where
  "rmatch [] s pos opens caps = Some (pos, caps)"
| "rmatch (One c # items) [] pos opens caps = None"
| "rmatch (One c # items) (x # xs) pos opens caps =
     (if in_class c x then rmatch items xs (Suc pos) opens caps else None)"
| "rmatch (Star c # items) [] pos opens caps = rmatch items [] pos opens caps"
| "rmatch (Star c # items) (x # xs) pos opens caps =
     (if in_class c x
      then (case rmatch (Star c # items) xs (Suc pos) opens caps of
              Some r \<Rightarrow> Some r
            | None \<Rightarrow> rmatch items (x # xs) pos opens caps)
      else rmatch items (x # xs) pos opens caps)"
| "rmatch (Lazy c # items) [] pos opens caps = rmatch items [] pos opens caps"
| "rmatch (Lazy c # items) (x # xs) pos opens caps =
     (case rmatch items (x # xs) pos opens caps of
        Some r \<Rightarrow> Some r
      | None \<Rightarrow> if in_class c x then rmatch (Lazy c # items) xs (Suc pos) opens caps else None)"
| "rmatch (Plus c # items) [] pos opens caps = None"
| "rmatch (Plus c # items) (x # xs) pos opens caps =
     (if in_class c x then rmatch (Star c # items) xs (Suc pos) opens caps else None)"
| "rmatch (Opt c # items) [] pos opens caps = rmatch items [] pos opens caps"
| "rmatch (Opt c # items) (x # xs) pos opens caps =
     (if in_class c x
      then (case rmatch items xs (Suc pos) opens caps of
              Some r \<Rightarrow> Some r
            | None \<Rightarrow> rmatch items (x # xs) pos opens caps)
      else rmatch items (x # xs) pos opens caps)"
| "rmatch (Open n # items) s pos opens caps = rmatch items s pos ((n, pos) # opens) caps"
| "rmatch (Close n # items) s pos opens caps =
     rmatch items s pos opens ((n, group_start n opens, pos) # caps)"
| "rmatch (Eol # items) [] pos opens caps = rmatch items [] pos opens caps"
| "rmatch (Eol # items) (x # xs) pos opens caps =
     (if line_terminator x then rmatch items (x # xs) pos opens caps else None)"

text \<open>
  \<^verbatim>\<open>exec\<close> on an unanchored pattern: the first start position at which the pattern
  matches. The result is the start position, the length of the match and the groups.
\<close>

fun exec :: "item list \<Rightarrow> string \<Rightarrow> (nat \<times> nat \<times> captures) option" where
  "exec items [] =
     (case rmatch items [] 0 [] [] of Some (e, caps) \<Rightarrow> Some (0, e, caps) | None \<Rightarrow> None)"
| "exec items (x # xs) =
     (case rmatch items (x # xs) 0 [] [] of
        Some (e, caps) \<Rightarrow> Some (0, e, caps)
      | None \<Rightarrow> (case exec items xs of
                   Some (st, e, caps) \<Rightarrow> Some (Suc st, e, caps)
                 | None \<Rightarrow> None))"

fun capture_bounds :: "nat \<Rightarrow> captures \<Rightarrow> (nat \<times> nat) option" where
  "capture_bounds n [] = None"
| "capture_bounds n ((m, a, b) # caps) = (if m = n then Some (a, b) else capture_bounds n caps)"

definition group :: "string \<Rightarrow> nat \<times> nat \<times> captures \<Rightarrow> nat \<Rightarrow> string" where
  "group s m n =
     (case m of (st, e, caps) \<Rightarrow>
        (case capture_bounds n caps of
           Some (a, b) \<Rightarrow> take (b - a) (drop (st + a) s)
         | None \<Rightarrow> []))"

lemma rmatch_bound:
  "rmatch items s pos opens caps = Some (e, caps') \<Longrightarrow> pos \<le> e \<and> e \<le> pos + length s"
proof (induction items s pos opens caps arbitrary: e caps' rule: rmatch.induct)
  case (5 c items x xs pos opens caps)
  then show ?case by (fastforce split: if_splits option.splits)
next
  case (7 c items x xs pos opens caps)
  then show ?case by (fastforce split: if_splits option.splits)
next
  case (11 c items x xs pos opens caps)
  then show ?case by (fastforce split: if_splits option.splits)
qed (fastforce split: if_splits)+

lemma rmatch_progress:
  "rmatch (One c # items) s pos opens caps = Some (e, caps') \<Longrightarrow> pos < e"
  by (cases s) (auto split: if_splits dest: rmatch_bound)

lemma exec_bound:
  "exec items s = Some (st, e, caps) \<Longrightarrow> st + e \<le> length s"
proof (induction s arbitrary: st e caps)
  case Nil
  then show ?case by (auto split: option.splits dest: rmatch_bound)
next
  case (Cons x xs)
  then show ?case by (fastforce split: option.splits dest: rmatch_bound)
qed

lemma exec_progress:
  "exec (One c # items) s = Some (st, e, caps) \<Longrightarrow> 0 < e"
proof (induction s arbitrary: st)
  case Nil
  then show ?case by (auto split: option.splits)
next
  case (Cons x xs)
  show ?case
  proof (cases "rmatch (One c # items) (x # xs) 0 [] []")
    case None
    with Cons.prems obtain st' where "exec (One c # items) xs = Some (st', e, caps)"
      by (auto simp del: rmatch.simps split: option.splits)
    then show ?thesis by (rule Cons.IH)
  next
    case (Some r)
    with Cons.prems have "rmatch (One c # items) (x # xs) 0 [] [] = Some (e, caps)"
      by (auto simp del: rmatch.simps split: option.splits)
    then show ?thesis using rmatch_progress by blast
  qed
qed

text \<open>
  \<^verbatim>\<open>String.prototype.replace\<close> with a global pattern and the empty replacement: every
  match is removed, left to right; after an empty match the search moves on by one
  character.
\<close>

function replace_all :: "item list \<Rightarrow> string \<Rightarrow> string" where
  "replace_all items s =
     (case exec items s of
        None \<Rightarrow> s
      | Some (st, e, caps) \<Rightarrow>
          if e = 0
          then (if st < length s then take (Suc st) s @ replace_all items (drop (Suc st) s) else s)
          else take st s @ replace_all items (drop (st + e) s))"
  by pat_completeness auto
termination
proof (relation "measure (\<lambda>(items, s). length s)")
  show "wf (measure (\<lambda>(items, s). length s))" by simp
next
  fix items :: "item list" and s :: string and x2 st y e caps
  assume "exec items s = Some x2" "(st, y) = x2" "(e, caps) = y" "e = 0" "st < length s"
  then show "((items, drop (Suc st) s), (items, s)) \<in> measure (\<lambda>(items, s). length s)"
    by simp
next
  fix items :: "item list" and s :: string and x2 st y e caps
  assume a: "exec items s = Some x2" "(st, y) = x2" "(e, caps) = y" "e \<noteq> 0"
  then have "exec items s = Some (st, e, caps)" by auto
  from exec_bound [OF this] a(4)
  show "((items, drop (st + e) s), (items, s)) \<in> measure (\<lambda>(items, s). length s)"
    by simp
qed

section \<open>The description parser\<close>

definition lit :: "string \<Rightarrow> item list" where
  "lit s = map (\<lambda>c. One (Lit c)) s"

definition litI :: "string \<Rightarrow> item list" where
  "litI s = map (\<lambda>c. One (LitI c)) s"

definition block_comment_re :: "item list" where
  "block_comment_re = lit ''/*'' @ [Lazy Any] @ lit ''*/''"

definition line_comment_re :: "item list" where
  "line_comment_re = lit ''//'' @ [Star Dot, Eol]"

definition stripScadComments :: "string \<Rightarrow> string" where
  "stripScadComments src =
     (let noBlock = replace_all block_comment_re src
      in replace_all line_comment_re noBlock)"

definition brick_re :: "item list" where
  "brick_re =
     lit ''brick'' @
     [Star Space, One (Lit (CHR ''('')), Star Space, One (Lit (CHR 0x22)),
      Open 1, Lazy Dot, Close 1, One (Lit (CHR 0x22)), Star Space, One (Lit (CHR '','')),
      Open 2, Lazy Any, Close 2, One (Lit (CHR '')'')), Star Space, Opt (Lit (CHR '';''))]"

definition number_re :: "item list" where
  "number_re = [Opt Sign, Star Digit, Opt (Lit (CHR ''.'')), Plus Digit]"

definition getNum_re :: "string \<Rightarrow> item list" where
  "getNum_re name =
     litI name @ [Star Space, One (Lit (CHR ''='')), Star Space, Open 1] @ number_re @ [Close 1]"

definition getVec3_re :: "string \<Rightarrow> item list" where
  "getVec3_re name =
     litI name @
     [Star Space, One (Lit (CHR ''='')), Star Space, One (Lit (CHR ''['')), Star Space, Open 1] @
     number_re @
     [Close 1, Star Space, One (Lit (CHR '','')), Star Space, Open 2] @
     number_re @
     [Close 2, Star Space, One (Lit (CHR '','')), Star Space, Open 3] @
     number_re @
     [Close 3, Star Space, One (Lit (CHR '']''))]"

text \<open>
  \<^verbatim>\<open>Number\<close> on the text of a numeric capture: an optional sign, digits, and an optional
  fraction. The value is the exact decimal.
\<close>

definition digit_value :: "char \<Rightarrow> nat" where
  "digit_value c = of_char c - 48"

definition digits_value :: "string \<Rightarrow> nat" where
  "digits_value ds = foldl (\<lambda>acc c. 10 * acc + digit_value c) 0 ds"

definition Number :: "string \<Rightarrow> real" where
  "Number s =
     (let (sign, t) = (case s of
                         c # r \<Rightarrow> if c = CHR ''-'' then (- 1, r)
                                 else if c = CHR ''+'' then (1, r) else (1, s)
                       | [] \<Rightarrow> (1 :: real, s));
          whole = takeWhile (in_class Digit) t;
          rest = dropWhile (in_class Digit) t;
          frac = (case rest of
                    c # r \<Rightarrow> if c = CHR ''.'' then takeWhile (in_class Digit) r else []
                  | [] \<Rightarrow> [])
      in sign * (real (digits_value whole) + real (digits_value frac) / 10 ^ length frac))"

definition getNum :: "string \<Rightarrow> string \<Rightarrow> real option" where
  "getNum name args =
     (case exec (getNum_re name) args of
        Some r \<Rightarrow> Some (Number (group args r 1))
      | None \<Rightarrow> None)"

definition getVec3 :: "string \<Rightarrow> string \<Rightarrow> (real \<times> real \<times> real) option" where
  "getVec3 name args =
     (case exec (getVec3_re name) args of
        Some r \<Rightarrow> Some (Number (group args r 1), Number (group args r 2), Number (group args r 3))
      | None \<Rightarrow> None)"

text \<open>
  The catalog of each revision, and the \<^verbatim>\<open>in\<close> operator on it: a key is found when it
  is a key of the object itself or a property inherited from the prototype of all
  objects.
\<close>

definition BRICK_DIMS :: "layout \<Rightarrow> (string \<times> nat \<times> nat) list" where
  "BRICK_DIMS lay =
     (case lay of
        Z_up \<Rightarrow>
     [(''1x1'', 1, 1), (''1x2'', 1, 2), (''1x3'', 1, 3), (''1x4'', 1, 4),
      (''1x6'', 1, 6), (''1x8'', 1, 8), (''2x2'', 2, 2), (''2x3'', 2, 3),
      (''2x4'', 2, 4), (''2x6'', 2, 6), (''2x8'', 2, 8), (''2x10'', 2, 10),
      (''3x3'', 3, 3), (''4x4'', 4, 4), (''plate_1x2'', 1, 2), (''plate_1x4'', 1, 4),
      (''plate_2x2'', 2, 2), (''plate_2x4'', 2, 4), (''plate_2x6'', 2, 6),
      (''tile_1x2'', 1, 2), (''tile_1x4'', 1, 4), (''tile_2x2'', 2, 2),
      (''tile_2x4'', 2, 4), (''slope_45_2x2'', 2, 2), (''slope_45_2x4'', 2, 4)]
      | Y_up \<Rightarrow>
     [(''1x1'', 1, 1), (''1x2'', 1, 2), (''1x3'', 1, 3), (''1x4'', 1, 4),
      (''1x5'', 1, 5), (''1x6'', 1, 6), (''1x8'', 1, 8), (''1x10'', 1, 10),
      (''1x12'', 1, 12), (''2x2'', 2, 2), (''2x3'', 2, 3), (''2x4'', 2, 4),
      (''2x6'', 2, 6), (''2x8'', 2, 8), (''2x10'', 2, 10), (''2x12'', 2, 12),
      (''3x3'', 3, 3), (''3x4'', 3, 4), (''3x6'', 3, 6), (''4x4'', 4, 4),
      (''4x6'', 4, 6), (''4x8'', 4, 8), (''plate_1x1'', 1, 1), (''plate_1x2'', 1, 2),
      (''plate_1x3'', 1, 3), (''plate_1x4'', 1, 4), (''plate_1x6'', 1, 6),
      (''plate_1x8'', 1, 8), (''plate_2x2'', 2, 2), (''plate_2x3'', 2, 3),
      (''plate_2x4'', 2, 4), (''plate_2x6'', 2, 6), (''plate_2x8'', 2, 8),
      (''plate_2x10'', 2, 10), (''plate_3x3'', 3, 3), (''plate_4x4'', 4, 4),
      (''tile_1x1'', 1, 1), (''tile_1x2'', 1, 2), (''tile_1x3'', 1, 3),
      (''tile_1x4'', 1, 4), (''tile_1x6'', 1, 6), (''tile_2x2'', 2, 2),
      (''tile_2x3'', 2, 3), (''tile_2x4'', 2, 4), (''tile_2x6'', 2, 6),
      (''slope_45_1x2'', 1, 2), (''slope_45_2x2'', 2, 2), (''slope_45_2x3'', 2, 3),
      (''slope_45_2x4'', 2, 4), (''slope_45_3x2'', 3, 2), (''slope_45_3x3'', 3, 3)])"

definition object_prototype_keys :: "string list" where
  "object_prototype_keys =
     [''constructor'', ''__defineGetter__'', ''__defineSetter__'', ''hasOwnProperty'',
      ''__lookupGetter__'', ''__lookupSetter__'', ''isPrototypeOf'', ''propertyIsEnumerable'',
      ''toString'', ''valueOf'', ''__proto__'', ''toLocaleString'']"

definition js_in :: "string \<Rightarrow> (string \<times> nat \<times> nat) list \<Rightarrow> bool" where
  "js_in key obj = (key \<in> set (map fst obj) \<or> key \<in> set object_prototype_keys)"

definition trim :: "string \<Rightarrow> string" where
  "trim s = rev (dropWhile js_space (rev (dropWhile js_space s)))"

text \<open>
  The body of the parsing loop for one statement with a known kind, in the three steps of
  the source: position, rotation, colour. The identifier comes from \<open>uid\<close>, a
  parameter that stands for the clock and the random generator: \<open>uid n\<close> is the
  identifier drawn for the Part with index \<open>n\<close>.
\<close>

definition statement_position :: "layout \<Rightarrow> string \<Rightarrow> real \<times> real \<times> real" where
  "statement_position lay args =
     (let xMm = getNum ''xMm'' args; yMm = getNum ''yMm'' args; zMm = getNum ''zMm'' args;
          xStud = getNum ''xStud'' args; yStud = getNum ''yStud'' args;
          zLevel = getNum ''zLevel'' args
      in if xMm \<noteq> None \<and> yMm \<noteq> None \<and> zMm \<noteq> None
         then (the xMm, the yMm, the zMm)
         else if xStud \<noteq> None \<and> yStud \<noteq> None \<and> zLevel \<noteq> None
         then (case lay of
                 Z_up \<Rightarrow> (the xStud * STUD_PITCH, the yStud * STUD_PITCH, the zLevel * BRICK_H)
               | Y_up \<Rightarrow> (the xStud * STUD_PITCH, the zLevel * BRICK_H, the yStud * STUD_PITCH))
         else (0, 0, 0))"

definition statement_rotation :: "string \<Rightarrow> real \<times> real \<times> real" where
  "statement_rotation args =
     (let rotArr = getVec3 ''rot'' args; rotY = getNum ''rotY'' args
      in case rotArr of
           Some r \<Rightarrow> r
         | None \<Rightarrow> (case rotY of Some ry \<Rightarrow> (0, ry, 0) | None \<Rightarrow> (0, 0, 0)))"

definition statement_color :: "string \<Rightarrow> real \<times> real \<times> real" where
  "statement_color args =
     (let col = (case getVec3 ''color'' args of Some c \<Rightarrow> c | None \<Rightarrow> (4 / 5, 1 / 10, 1 / 10))
      in case col of (r, g, b) \<Rightarrow> (clamp01 r, clamp01 g, clamp01 b))"

definition statement_brick :: "layout \<Rightarrow> string \<Rightarrow> string \<Rightarrow> string \<Rightarrow> brick" where
  "statement_brick lay new_id k args =
     (case statement_position lay args of (px, py, pz) \<Rightarrow>
      case statement_rotation args of (rx, ry, rz) \<Rightarrow>
        \<lparr>brick_id = new_id, kind = k, xMm = px, yMm = py, zMm = pz,
         rotX = rx, rotY = ry, rotZ = rz, color = statement_color args\<rparr>)"

text \<open>
  The loop over the matches of the statement pattern. A match is never empty, because
  the pattern starts with a literal, so every round continues in a shorter text.
\<close>

lemma brick_re_head: "\<exists>c items. brick_re = One c # items"
  by (simp add: brick_re_def lit_def)

function parse_statements ::
  "layout \<Rightarrow> (nat \<Rightarrow> string) \<Rightarrow> string \<Rightarrow> brick list \<Rightarrow> brick list" where
  "parse_statements lay uid src acc =
     (case exec brick_re src of
        None \<Rightarrow> acc
      | Some (st, e, caps) \<Rightarrow>
          (let kindRaw = trim (group src (st, e, caps) 1);
               args = group src (st, e, caps) 2;
               rest = drop (st + e) src
           in if \<not> js_in kindRaw (BRICK_DIMS lay)
              then parse_statements lay uid rest acc
              else parse_statements lay uid rest
                     (acc @ [statement_brick lay (uid (length acc)) kindRaw args])))"
  by pat_completeness auto
termination
proof (relation "measure (\<lambda>(lay, uid, src, acc). length src)")
  show "wf (measure (\<lambda>(lay, uid, src, acc). length src))" by simp
next
  fix lay :: layout and uid :: "nat \<Rightarrow> string" and src :: string and acc :: "brick list"
    and x2 st y e caps kindRaw args rest
  assume a: "exec brick_re src = Some x2" "(st, y) = x2" "(e, caps) = y" "rest = drop (st + e) src"
  then have m: "exec brick_re src = Some (st, e, caps)" by auto
  from brick_re_head obtain c items where "brick_re = One c # items" by blast
  with m have "0 < e" using exec_progress by metis
  with exec_bound [OF m] a(4)
  show "((lay, uid, rest, acc), (lay, uid, src, acc))
      \<in> measure (\<lambda>(lay, uid, src, acc). length src)"
    by simp
next
  fix lay :: layout and uid :: "nat \<Rightarrow> string" and src :: string and acc :: "brick list"
    and x2 st y e caps kindRaw args rest
  assume a: "exec brick_re src = Some x2" "(st, y) = x2" "(e, caps) = y" "rest = drop (st + e) src"
  then have m: "exec brick_re src = Some (st, e, caps)" by auto
  from brick_re_head obtain c items where "brick_re = One c # items" by blast
  with m have "0 < e" using exec_progress by metis
  with exec_bound [OF m] a(4)
  show "((lay, uid, rest, acc @ [statement_brick lay (uid (length acc)) kindRaw args]),
         (lay, uid, src, acc))
      \<in> measure (\<lambda>(lay, uid, src, acc). length src)"
    by simp
qed

definition parseBrickDSL :: "layout \<Rightarrow> (nat \<Rightarrow> string) \<Rightarrow> string \<Rightarrow> brick list" where
  "parseBrickDSL lay uid scadText = parse_statements lay uid (stripScadComments scadText) []"

lemma position_cases:
  "statement_position lay args =
     (case (getNum ''xMm'' args, getNum ''yMm'' args, getNum ''zMm'' args) of
        (Some x, Some y, Some z) \<Rightarrow> (x, y, z)
      | _ \<Rightarrow>
          (case (getNum ''xStud'' args, getNum ''yStud'' args, getNum ''zLevel'' args) of
             (Some gx, Some gy, Some lv) \<Rightarrow>
               (case lay of
                  Z_up \<Rightarrow> (gx * 8, gy * 8, lv * (96 / 10))
                | Y_up \<Rightarrow> (gx * 8, lv * (96 / 10), gy * 8))
           | _ \<Rightarrow> (0, 0, 0)))"
  by (simp add: statement_position_def Let_def STUD_PITCH_def BRICK_H_def
      split: option.splits layout.splits)

lemma grid_example_first:
  \<open>map (\<lambda>b. (xMm b, yMm b, zMm b))
     (parseBrickDSL Z_up uid ''brick("2x2", xStud=2, yStud=0, zLevel=0);'') = [(16, 0, 0)]\<close>
  by code_simp

lemma grid_example_second:
  \<open>map (\<lambda>b. (xMm b, yMm b, zMm b))
     (parseBrickDSL Y_up uid ''brick("2x2", xStud=2, yStud=0, zLevel=0);'') = [(16, 0, 0)]\<close>
  by code_simp

lemma grid_example:
  \<open>map (\<lambda>b. (xMm b, yMm b, zMm b))
     (parseBrickDSL lay uid ''brick("2x2", xStud=2, yStud=0, zLevel=0);'') = [(16, 0, 0)]\<close>
  using grid_example_first grid_example_second by (cases lay) blast+

lemma priority_example:
  \<open>map (\<lambda>b. (xMm b, yMm b, zMm b))
     (parseBrickDSL Y_up uid ''brick("1x1", xStud=2, yStud=1, zLevel=1, xMm=1, yMm=2, zMm=3);'')
   = [(1, 2, 3)]\<close>
  by code_simp

lemma partial_example:
  \<open>map (\<lambda>b. (xMm b, yMm b, zMm b))
     (parseBrickDSL Y_up uid ''brick("1x1", xStud=2, yStud=1, xMm=1, zMm=3);'') = [(0, 0, 0)]\<close>
  by code_simp

text \<open>Every parsed Part has a kind that passed the \<^verbatim>\<open>in\<close> test.\<close>

lemma statement_brick_kind [simp]: "kind (statement_brick lay i k args) = k"
  by (simp add: statement_brick_def split: prod.splits)

lemma parse_statements_kinds:
  "b \<in> set (parse_statements lay uid src acc) \<Longrightarrow>
     b \<in> set acc \<or> js_in (kind b) (BRICK_DIMS lay)"
proof (induction lay uid src acc rule: parse_statements.induct)
  case (1 lay uid src acc)
  show ?case
  proof (cases "exec brick_re src")
    case None
    with "1.prems" show ?thesis by (simp add: parse_statements.simps [of lay uid src acc])
  next
    case (Some m)
    obtain st e caps where m: "m = (st, e, caps)" by (cases m) auto
    define kindRaw where "kindRaw = trim (group src (st, e, caps) 1)"
    define args where "args = group src (st, e, caps) 2"
    define rest where "rest = drop (st + e) src"
    show ?thesis
    proof (cases "js_in kindRaw (BRICK_DIMS lay)")
      case False
      with Some m "1.prems" have "b \<in> set (parse_statements lay uid rest acc)"
        by (simp add: parse_statements.simps [of lay uid src acc] Let_def kindRaw_def rest_def)
      with "1.IH"(1) [OF Some m [symmetric] refl kindRaw_def args_def rest_def] False
      show ?thesis by simp
    next
      case True
      with Some m "1.prems"
      have "b \<in> set (parse_statements lay uid rest
                (acc @ [statement_brick lay (uid (length acc)) kindRaw args]))"
        by (simp add: parse_statements.simps [of lay uid src acc] Let_def kindRaw_def rest_def
            args_def)
      with "1.IH"(2) [OF Some m [symmetric] refl kindRaw_def args_def rest_def] True
      show ?thesis by auto
    qed
  qed
qed

lemma parsed_kinds:
  "b \<in> set (parseBrickDSL lay uid scadText) \<Longrightarrow>
     kind b \<in> set (map fst (BRICK_DIMS lay)) \<or> kind b \<in> set object_prototype_keys"
  unfolding parseBrickDSL_def using parse_statements_kinds [of b lay uid _ "[]"]
  by (simp add: js_in_def)

lemma not_in_catalog: "''toString'' \<notin> set (map fst (BRICK_DIMS lay))"
  by (cases lay) (simp_all add: BRICK_DIMS_def)

lemma prototype_first:
  \<open>parseBrickDSL Z_up uid ''brick("toString", rotY=90);'' =
     [\<lparr>brick_id = uid 0, kind = ''toString'', xMm = 0, yMm = 0, zMm = 0,
       rotX = 0, rotY = 90, rotZ = 0, color = (4 / 5, 1 / 10, 1 / 10)\<rparr>]\<close>
  by code_simp

lemma prototype_second:
  \<open>parseBrickDSL Y_up uid ''brick("toString", rotY=90);'' =
     [\<lparr>brick_id = uid 0, kind = ''toString'', xMm = 0, yMm = 0, zMm = 0,
       rotX = 0, rotY = 90, rotZ = 0, color = (4 / 5, 1 / 10, 1 / 10)\<rparr>]\<close>
  by code_simp

text \<open>
  C3. The parser returns a list for every text, and a statement without position and
  colour fields yields a Part with the defaults. But a statement whose kind names a
  property that every object inherits, such as \<open>toString\<close>, passes the catalog test
  and yields a Part, although the catalog of neither revision has such a kind.
\<close>

theorem prototype_key_is_parsed:
  \<open>parseBrickDSL lay uid ''brick("toString", rotY=90);'' =
     [\<lparr>brick_id = uid 0, kind = ''toString'', xMm = 0, yMm = 0, zMm = 0,
       rotX = 0, rotY = 90, rotZ = 0, color = (4 / 5, 1 / 10, 1 / 10)\<rparr>] \<and>
   ''toString'' \<notin> set (map fst (BRICK_DIMS lay))\<close>
  using prototype_first prototype_second not_in_catalog by (cases lay) blast+

text \<open>
  C5. The position of a statement is the explicit triple when all three of its fields
  are found; otherwise, when all three grid fields are found, the two grid coordinates
  times the stud pitch 8 and the level times the brick height 9.6; otherwise the origin.
  A statement with grid position (2, 0, 0) is parsed to position (16, 0, 0) in both
  revisions; a full explicit triple wins over a full grid triple; two incomplete triples
  give the origin.
\<close>

theorem position_encoding:
  \<open>statement_position lay args =
     (case (getNum ''xMm'' args, getNum ''yMm'' args, getNum ''zMm'' args) of
        (Some x, Some y, Some z) \<Rightarrow> (x, y, z)
      | _ \<Rightarrow>
          (case (getNum ''xStud'' args, getNum ''yStud'' args, getNum ''zLevel'' args) of
             (Some gx, Some gy, Some lv) \<Rightarrow>
               (case lay of
                  Z_up \<Rightarrow> (gx * 8, gy * 8, lv * (96 / 10))
                | Y_up \<Rightarrow> (gx * 8, lv * (96 / 10), gy * 8))
           | _ \<Rightarrow> (0, 0, 0))) \<and>
   map (\<lambda>b. (xMm b, yMm b, zMm b))
     (parseBrickDSL lay uid ''brick("2x2", xStud=2, yStud=0, zLevel=0);'') = [(16, 0, 0)] \<and>
   map (\<lambda>b. (xMm b, yMm b, zMm b))
     (parseBrickDSL Y_up uid ''brick("1x1", xStud=2, yStud=1, zLevel=1, xMm=1, yMm=2, zMm=3);'')
     = [(1, 2, 3)] \<and>
   map (\<lambda>b. (xMm b, yMm b, zMm b))
     (parseBrickDSL Y_up uid ''brick("1x1", xStud=2, yStud=1, xMm=1, zMm=3);'') = [(0, 0, 0)]\<close>
  using position_cases [of lay args] grid_example [of lay uid] priority_example [of uid]
    partial_example [of uid]
  by (intro conjI)

end
